theory Spec2Isabelle
  imports Complex_Main "HOL-Library.Sublist"
begin

section \<open>Dates, durations and Python numerics\<close>

text \<open>
  A \<open>datetime\<close> is a number of microseconds since a fixed epoch and a \<open>timedelta\<close> a
  number of microseconds, the resolution of Python's \<open>datetime\<close> module. The source
  stores \<open>isoformat()\<close> strings in its events; \<open>isoformat\<close> is injective on datetimes,
  so the events of the model carry the datetime itself. Python floats are modelled by
  exact rationals.
\<close>

type_synonym datetime = int
type_synonym timedelta = int

definition td_days :: "int \<Rightarrow> timedelta" where
  "td_days n = n * 86400000000"

definition td_minutes :: "int \<Rightarrow> timedelta" where
  "td_minutes n = n * 60000000"

definition td_seconds :: "int \<Rightarrow> timedelta" where
  "td_seconds n = n * 1000000"

definition total_seconds :: "timedelta \<Rightarrow> rat" where
  "total_seconds d = of_int d / 1000000"

text \<open>\<open>timedelta.days\<close>: whole days, rounded towards minus infinity.\<close>

definition td_whole_days :: "timedelta \<Rightarrow> int" where
  "td_whole_days d = d div 86400000000"

text \<open>Python's \<open>int(x)\<close> on a float truncates towards zero.\<close>

definition py_int :: "rat \<Rightarrow> int" where
  "py_int x = (if 0 \<le> x then \<lfloor>x\<rfloor> else \<lceil>x\<rceil>)"

text \<open>
  \<open>timedelta * float\<close> and \<open>timedelta(days=float)\<close> round the exact product to the
  nearest microsecond, ties to the even one.
\<close>

definition round_half_even :: "rat \<Rightarrow> int" where
  "round_half_even x =
     (let f = \<lfloor>x\<rfloor>; d = x - of_int f
      in if d < 1 / 2 then f
         else if 1 / 2 < d then f + 1
         else if even f then f else f + 1)"

definition td_mul :: "timedelta \<Rightarrow> rat \<Rightarrow> timedelta" where
  "td_mul d x = round_half_even (of_int d * x)"

text \<open>Decimal rendering of integers, as \<open>str(n)\<close> and \<open>f"{n}"\<close> give it.\<close>

function str_digits :: "int \<Rightarrow> string" where
  "str_digits n =
     (if n < 10 then [char_of (48 + n)]
      else str_digits (n div 10) @ [char_of (48 + n mod 10)])"
  by pat_completeness auto
termination
  by (relation "measure nat") auto

definition str_int :: "int \<Rightarrow> string" where
  "str_int i = (if i < 0 then CHR ''-'' # str_digits (- i) else str_digits i)"

text \<open>The format \<open>{n:02d}\<close>: at least two digits, padded with a zero.\<close>

definition fmt_02d :: "int \<Rightarrow> string" where
  "fmt_02d i = (if 0 \<le> i \<and> i < 10 then CHR ''0'' # str_int i else str_int i)"

section \<open>The environment: randomness, the clock, the external services\<close>

text \<open>
  Everything the program reads from outside is an oracle of the environment:
  \<^item> \<open>rnd\<close>: the raw output of the random generator, one number per draw,
    which \<open>randint\<close> and \<open>choice\<close> reduce to the range asked for;
  \<^item> \<open>clk\<close>: the successive readings of \<open>datetime.now()\<close>;
  \<^item> \<open>ext\<close>: the outcome of the successive calls to Firestore and BigQuery;
  \<^item> \<open>user_rows\<close>: the rows of the seed table \<open>success-hq.datastore.user\<close>, in the
    order of their e-mail addresses (the query's \<open>ORDER BY email\<close>).
  A position \<open>(i, j)\<close> counts the draws and the clock readings consumed so far.
\<close>

datatype outcome = Ok | Raises string | RowErrors string

record seed_user =
  su_email :: string
  su_company :: string
  su_offset :: int

record env =
  rnd :: "nat \<Rightarrow> int"
  clk :: "nat \<Rightarrow> datetime"
  ext :: "nat \<Rightarrow> outcome"
  user_rows :: "seed_user list"

type_synonym pos = "nat \<times> nat"

text \<open>
  \<open>random.randint(a, b)\<close> returns an integer of \<open>[a, b]\<close>. It raises \<open>ValueError\<close> when
  \<open>b < a\<close>; every call of the source has bounds that are constants or a previous draw
  that is at least the lower bound, so that branch is never taken.
\<close>

definition randint :: "env \<Rightarrow> int \<Rightarrow> int \<Rightarrow> pos \<Rightarrow> int \<times> pos" where
  "randint E a b p = (a + rnd E (fst p) mod (b - a + 1), (Suc (fst p), snd p))"

text \<open>
  \<open>random.choice(xs)\<close> on one of the non-empty constant lists of the configuration.
\<close>

definition choice :: "env \<Rightarrow> 'a list \<Rightarrow> pos \<Rightarrow> 'a \<times> pos" where
  "choice E xs p = (xs ! nat (rnd E (fst p) mod int (length xs)), (Suc (fst p), snd p))"

definition now :: "env \<Rightarrow> pos \<Rightarrow> datetime \<times> pos" where
  "now E p = (clk E (snd p), (fst p, Suc (snd p)))"

section \<open>Company events\<close>

record company_event =
  ce_timestamp :: datetime
  ce_type :: string
  ce_company :: string
  ce_purchased :: "int option"
  ce_provisioned :: "int option"
  ce_serial_number :: "string option"
  ce_box_name :: "string option"

definition pur_event :: "datetime \<Rightarrow> string \<Rightarrow> int \<Rightarrow> company_event" where
  "pur_event ts company_name n =
     \<lparr>ce_timestamp = ts, ce_type = ''purchased'', ce_company = company_name,
      ce_purchased = Some n, ce_provisioned = None,
      ce_serial_number = None, ce_box_name = None\<rparr>"

definition prov_event :: "datetime \<Rightarrow> string \<Rightarrow> int \<Rightarrow> int \<Rightarrow> company_event" where
  "prov_event ts company_name serial box =
     \<lparr>ce_timestamp = ts, ce_type = ''provisioned'', ce_company = company_name,
      ce_purchased = None, ce_provisioned = Some 1,
      ce_serial_number = Some (''A'' @ str_int serial),
      ce_box_name = Some (company_name @ ''.room.'' @ fmt_02d box)\<rparr>"

text \<open>The loop \<open>for device in range(initial_prov)\<close> of \<open>_build_company_events\<close>.\<close>

fun initial_provisioning ::
  "env \<Rightarrow> string \<Rightarrow> datetime \<Rightarrow> nat list \<Rightarrow> pos \<Rightarrow> company_event list \<times> pos" where
  "initial_provisioning E company_name prov_date [] p = ([], p)"
| "initial_provisioning E company_name prov_date (device # ds) p =
     (let (serial, p1) = randint E 100000 2000000 p;
          ev = prov_event prov_date company_name serial (int device + 1);
          (rest, p2) = initial_provisioning E company_name prov_date ds p1
      in (ev # rest, p2))"

text \<open>The loop \<open>for device in range(1, last_prov + 1)\<close>, which advances \<open>boxes\<close>.\<close>

fun provisioning ::
  "env \<Rightarrow> string \<Rightarrow> datetime \<Rightarrow> nat list \<Rightarrow> int \<Rightarrow> pos
     \<Rightarrow> company_event list \<times> int \<times> pos" where
  "provisioning E company_name prov_date [] boxes p = ([], boxes, p)"
| "provisioning E company_name prov_date (device # ds) boxes p =
     (let boxes1 = boxes + 1;
          (serial, p1) = randint E 100000 2000000 p;
          ev = prov_event prov_date company_name serial boxes1;
          (rest, boxes2, p2) = provisioning E company_name prov_date ds boxes1 p1
      in (ev # rest, boxes2, p2))"

text \<open>
  The loop \<open>for purchase in range(1, purchases)\<close>. Its body divides by \<open>purchases\<close>,
  which exceeds \<open>purchase \<ge> 1\<close> whenever the body runs.
\<close>

fun additional_purchases ::
  "env \<Rightarrow> string \<Rightarrow> datetime \<Rightarrow> int \<Rightarrow> nat list \<Rightarrow> int \<Rightarrow> pos
     \<Rightarrow> company_event list \<times> pos" where
  "additional_purchases E company_name reg_date purchases [] boxes p = ([], p)"
| "additional_purchases E company_name reg_date purchases (purchase # ps) boxes p =
     (let (purchased, p1) = randint E 5 15 p;
          purchase_fraction = of_nat purchase / of_int purchases;
          (n, p2) = now E p1;
          last_purchase_date = reg_date + td_mul (n - reg_date) purchase_fraction;
          ev = pur_event last_purchase_date company_name purchased;
          (d, p3) = randint E 2 14 p2;
          prov_date = last_purchase_date + td_days d;
          (last_prov, p4) = randint E (purchased div 2) purchased p3;
          (provs, boxes1, p5) =
             provisioning E company_name prov_date [1..<nat (last_prov + 1)] boxes p4;
          (rest, p6) = additional_purchases E company_name reg_date purchases ps boxes1 p5
      in (ev # provs @ rest, p6))"

definition build_company_events ::
  "env \<Rightarrow> string \<Rightarrow> datetime \<Rightarrow> pos \<Rightarrow> company_event list \<times> pos" where
  "build_company_events E company_name reg_date p =
     (let (initial_purchase, p1) = randint E 1 15 p;
          ev = pur_event reg_date company_name initial_purchase;
          (d, p2) = randint E 2 14 p1;
          prov_date = reg_date + td_days d;
          (initial_prov, p3) = randint E 1 initial_purchase p2;
          (provs, p4) =
             initial_provisioning E company_name prov_date [0..<nat initial_prov] p3;
          (n, p5) = now E p4;
          seconds = total_seconds (n - reg_date);
          days_since_reg = py_int (seconds / 86400);
          months_since_reg = py_int (of_int days_since_reg / 30) + 1;
          boxes = initial_prov;
          (k, p6) = randint E 1 2 p5;
          purchases = k * months_since_reg;
          (more, p7) =
             additional_purchases E company_name reg_date purchases
               [1..<nat purchases] boxes p6
      in (ev # provs @ more, p7))"

text \<open>The sums the claims speak of: the quantities of the events of each type.\<close>

definition quantity :: "int option \<Rightarrow> int" where
  "quantity q = (case q of None \<Rightarrow> 0 | Some n \<Rightarrow> n)"

definition purchased_sum :: "company_event list \<Rightarrow> int" where
  "purchased_sum evs =
     sum_list (map (\<lambda>e. quantity (ce_purchased e)) (filter (\<lambda>e. ce_type e = ''purchased'') evs))"

definition provisioned_sum :: "company_event list \<Rightarrow> int" where
  "provisioned_sum evs =
     sum_list (map (\<lambda>e. quantity (ce_provisioned e))
       (filter (\<lambda>e. ce_type e = ''provisioned'') evs))"

section \<open>Errors\<close>

text \<open>
  Every exception of the source is a value: \<open>ExternalServiceError\<close> is the
  application's own exception, \<open>BackendError\<close> an exception raised by a Google client
  library, the others are Python's built-in ones. \<open>str_exn\<close> is \<open>str(e)\<close>.
\<close>

datatype exn =
    ExternalServiceError string
  | BackendError string
  | ZeroDivisionError
  | TypeError

definition str_exn :: "exn \<Rightarrow> string" where
  "str_exn e =
     (case e of
        ExternalServiceError m \<Rightarrow> m
      | BackendError m \<Rightarrow> m
      | ZeroDivisionError \<Rightarrow> ''division by zero''
      | TypeError \<Rightarrow> ''unsupported operand type(s)'')"

text \<open>Python's \<open>x / y\<close> with a divisor that is a variable of the program.\<close>

definition truediv :: "rat \<Rightarrow> rat \<Rightarrow> exn + rat" where
  "truediv x y = (if y = 0 then Inl ZeroDivisionError else Inr (x / y))"

section \<open>Configuration constants\<close>

definition good_comments :: "string list" where
  "good_comments =
     [''Great!'', ''Love this video thing!'', ''Feels like I am there!'', ''Good'',
      ''Highfive rocks'']"

definition bad_comments :: "string list" where
  "bad_comments =
     [''Disconnected'', ''Video dropouts'', ''Crackling audio'', ''Slows computer down'',
      ''I am ugly'']"

definition operating_systems :: "string list" where
  "operating_systems = [''Mac OSX'', ''Windows'', ''Linux'', ''ios'', ''Android'']"

definition call_types :: "string list" where
  "call_types = [''Web'', ''Presentation'', ''Room-and-Web'', ''Multi-room-and-Web'']"

definition drivers :: "string list" where
  "drivers = [''Video'', ''Audio'', ''Network'']"

definition project_list :: "string list" where
  "project_list = [''Pilot'', ''Pro Eval'', ''Global Launch'', ''QBR'', ''Case Study'']"

definition metric_list :: "string list" where
  "metric_list = [''7DAU'', ''CPW'', ''CH/B/D'', ''RU'', ''Diversity'']"

definition demo_min_projects_per_company :: int where
  "demo_min_projects_per_company = 1"

definition demo_max_projects_per_company :: int where
  "demo_max_projects_per_company = 3"

definition demo_trending_metrics_count :: nat where
  "demo_trending_metrics_count = 3"

definition demo_trending_data_interval_days :: nat where
  "demo_trending_data_interval_days = 7"

definition demo_trending_data_period_days :: nat where
  "demo_trending_data_period_days = 30"

definition demo_max_reg_delay_minutes :: int where
  "demo_max_reg_delay_minutes = 120"

section \<open>User events\<close>

record user =
  u_email :: string
  u_company :: string
  u_reg_date :: datetime

text \<open>
  The session identifier of the source is the string
  \<open>str((datetime.now() - seed).total_seconds()) + "." + str(call)\<close>; the model keeps its
  two components, the time since \<open>seed\<close> and the index of the call, of which that
  string is an injective rendering.
\<close>

type_synonym session = "timedelta \<times> nat"

record user_event =
  ue_timestamp :: datetime
  ue_type :: string
  ue_user :: string
  ue_company :: string
  ue_call_duration :: "int option"
  ue_call_type :: "string option"
  ue_call_num_users :: "int option"
  ue_call_os :: "string option"
  ue_session_id :: "session option"
  ue_rating :: "int option"
  ue_comment :: "string option"
  ue_dialin_duration :: "int option"
  ue_ticket_number :: "string option"
  ue_ticket_driver :: "string option"

text \<open>An event of a user with every other field set to \<open>None\<close>.\<close>

definition blank_event :: "datetime \<Rightarrow> string \<Rightarrow> user \<Rightarrow> user_event" where
  "blank_event ts ty u =
     \<lparr>ue_timestamp = ts, ue_type = ty, ue_user = u_email u, ue_company = u_company u,
      ue_call_duration = None, ue_call_type = None, ue_call_num_users = None,
      ue_call_os = None, ue_session_id = None, ue_rating = None, ue_comment = None,
      ue_dialin_duration = None, ue_ticket_number = None, ue_ticket_driver = None\<rparr>"

definition generate_registration_events :: "user list \<Rightarrow> user_event list" where
  "generate_registration_events users =
     map (\<lambda>u. blank_event (u_reg_date u) ''register'' u) users"

subsection \<open>Support tickets\<close>

text \<open>The loop \<open>for ticket in range(tickets)\<close> of \<open>_generate_ticket_events\<close>.\<close>

fun ticket_loop ::
  "env \<Rightarrow> user \<Rightarrow> rat \<Rightarrow> int \<Rightarrow> nat list \<Rightarrow> pos \<Rightarrow> exn + (user_event list \<times> pos)" where
  "ticket_loop E u seconds tickets [] p = Inr ([], p)"
| "ticket_loop E u seconds tickets (ticket # ts) p =
     (case truediv seconds (of_int tickets) of
        Inl e \<Rightarrow> Inl e
      | Inr q \<Rightarrow>
          (let event_date =
                 u_reg_date u + td_seconds (py_int (q / (11 / 10)) * int ticket);
               (driver, p1) = choice E drivers p;
               ev = (blank_event event_date ''support_ticket'' u)
                      \<lparr>ue_ticket_number := Some (u_email u @ ''-'' @ str_int (int ticket)),
                       ue_ticket_driver := Some driver\<rparr>
           in case ticket_loop E u seconds tickets ts p1 of
                Inl e \<Rightarrow> Inl e
              | Inr (rest, p2) \<Rightarrow> Inr (ev # rest, p2)))"

text \<open>
  The body of the loop \<open>for user in users\<close> of \<open>_generate_ticket_events\<close>, in two
  parts: the number of tickets (with \<open>seconds\<close>, which the loop needs), then the loop.
\<close>

definition ticket_count :: "env \<Rightarrow> user \<Rightarrow> pos \<Rightarrow> exn + (int \<times> rat \<times> pos)" where
  "ticket_count E u p =
     (let (n, p1) = now E p;
          seconds = total_seconds (n - u_reg_date u);
          days_since_reg = py_int (seconds / 86400);
          (troubley, p2) = randint E 0 3 p1
      in case truediv (of_int days_since_reg) (of_int (4 - troubley)) of
           Inl e \<Rightarrow> Inl e
         | Inr q \<Rightarrow> Inr (py_int (q / 2), seconds, p2))"

definition ticket_events_for :: "env \<Rightarrow> user \<Rightarrow> pos \<Rightarrow> exn + (user_event list \<times> pos)" where
  "ticket_events_for E u p =
     (case ticket_count E u p of
        Inl e \<Rightarrow> Inl e
      | Inr (tickets, seconds, p2) \<Rightarrow>
          ticket_loop E u seconds tickets [0..<nat tickets] p2)"

fun generate_ticket_events ::
  "env \<Rightarrow> user list \<Rightarrow> pos \<Rightarrow> exn + (user_event list \<times> pos)" where
  "generate_ticket_events E [] p = Inr ([], p)"
| "generate_ticket_events E (u # us) p =
     (case ticket_events_for E u p of
        Inl e \<Rightarrow> Inl e
      | Inr (evs, p1) \<Rightarrow>
          (case generate_ticket_events E us p1 of
             Inl e \<Rightarrow> Inl e
           | Inr (rest, p2) \<Rightarrow> Inr (evs @ rest, p2)))"

subsection \<open>Calls\<close>

text \<open>\<open>seed = datetime(1980, 1, 1, 1, 0)\<close>, with 1 January 1970 as the epoch.\<close>

definition seed :: datetime where
  "seed = 315536400000000"

text \<open>Python's truth value of an optional integer and of an optional string.\<close>

definition truthy_int :: "int option \<Rightarrow> bool" where
  "truthy_int x = (case x of None \<Rightarrow> False | Some n \<Rightarrow> n \<noteq> 0)"

definition truthy_str :: "string option \<Rightarrow> bool" where
  "truthy_str x = (case x of None \<Rightarrow> False | Some s \<Rightarrow> s \<noteq> [])"

text \<open>
  One iteration of the loop \<open>for call in range(calls)\<close> of \<open>_generate_call_events\<close>,
  in two parts. \<open>call_draws\<close> is the part that determines the call (the comments
  "Determine ..." of the source): the record holds its local variables.
\<close>

record call_decisions =
  call_happy_score :: int
  call_happy :: bool
  call_rating_score :: int
  call_rating :: "int option"
  call_comment_score :: int
  call_comment :: "string option"
  call_length :: int
  call_dialin_score :: int
  dialin_length :: "int option"
  call_type_score :: int
  call_type :: string
  call_size_score :: int
  call_users :: int

definition call_draws ::
  "env \<Rightarrow> int \<Rightarrow> int \<Rightarrow> int \<Rightarrow> int \<Rightarrow> pos \<Rightarrow> call_decisions \<times> pos" where
  "call_draws E happy ratey commenty chatty p =
     (let (happy_score, p1) = randint E 0 99 p;
          is_happy = (happy * 25 \<le> happy_score);
          (rating_score, p2) = randint E 0 99 p1;
          (rating, p3) =
             (if rating_score \<le> ratey * 40
              then (if is_happy
                    then (let (r, q) = randint E 4 5 p2 in (Some r, q))
                    else (let (r, q) = randint E 1 3 p2 in (Some r, q)))
              else (None, p2));
          (comment_score, p4) = randint E 0 99 p3;
          (comment, p5) =
             (if (of_int comment_score :: rat) \<le> of_int (commenty * 33 * ratey) / 3
              then (if truthy_int rating \<and> 3 \<le> the rating
                    then (let (c, q) = choice E good_comments p4 in (Some c, q))
                    else (let (c, q) = choice E bad_comments p4 in (Some c, q)))
              else (None, p4));
          (l, p6) = randint E 5 20 p5;
          len = chatty * l;
          (dialin_score, p7) = randint E 0 99 p6;
          dialin = (if dialin_score < 40 then Some len else None);
          (type_score, p8) = randint E 0 99 p7;
          ty =
             (if type_score < 35 then call_types ! 0
              else if type_score < 70 then call_types ! 1
              else if type_score < 90 then call_types ! 2
              else call_types ! 3);
          (size_score, p9) = randint E 0 99 p8;
          users_on_call =
             (if size_score < 35 then 2
              else if size_score < 70 then 3
              else if size_score < 95 then 4
              else size_score - 90 + 5)
      in (\<lparr>call_happy_score = happy_score, call_happy = is_happy,
           call_rating_score = rating_score, call_rating = rating,
           call_comment_score = comment_score, call_comment = comment,
           call_length = len, call_dialin_score = dialin_score, dialin_length = dialin,
           call_type_score = type_score, call_type = ty,
           call_size_score = size_score, call_users = users_on_call\<rparr>, p9))"

text \<open>
  The events of one call (the comments "Create ..." of the source), for the date and
  the session identifier of the call.
\<close>

definition call_group ::
  "user \<Rightarrow> string \<Rightarrow> call_decisions \<Rightarrow> datetime \<Rightarrow> session \<Rightarrow> user_event list" where
  "call_group u os d event_date session_id =
     (let call_event = (blank_event event_date ''call'' u)
             \<lparr>ue_call_duration := Some (call_length d),
              ue_call_type := Some (call_type d),
              ue_call_num_users := Some (call_users d),
              ue_call_os := Some os,
              ue_session_id := Some session_id\<rparr>;
          load_event = blank_event (event_date - td_minutes 1) ''load'' u;
          rating_event = (blank_event event_date ''rating'' u)
             \<lparr>ue_rating := call_rating d, ue_session_id := Some session_id\<rparr>;
          comment_event = (blank_event event_date ''comment'' u)
             \<lparr>ue_comment := call_comment d, ue_session_id := Some session_id\<rparr>;
          dialin_event = (blank_event event_date ''dialin'' u)
             \<lparr>ue_call_duration := dialin_length d\<rparr>
      in [call_event, load_event]
         @ (if truthy_int (call_rating d) then [rating_event] else [])
         @ (if truthy_str (call_comment d) then [comment_event] else [])
         @ (if truthy_int (dialin_length d) then [dialin_event] else []))"

text \<open>
  The second part of an iteration: the date of the call and its session identifier
  (the comment "Calculate event date" of the source), then the events.
\<close>

definition call_emit ::
  "env \<Rightarrow> user \<Rightarrow> string \<Rightarrow> rat \<Rightarrow> int \<Rightarrow> nat \<Rightarrow> int \<Rightarrow> call_decisions \<Rightarrow> pos
     \<Rightarrow> exn + (user_event list \<times> pos)" where
  "call_emit E u os seconds calls call call_num d p9 =
     (case truediv seconds (of_int calls) of
        Inl e \<Rightarrow> Inl e
      | Inr q \<Rightarrow>
          (let (jitter, p10) = randint E (- 1000) 1000 p9;
               shift = py_int (q + of_int jitter) * call_num;
               event_date0 = u_reg_date u + td_seconds shift;
               (n1, p11) = now E p10;
               (event_date, p12) =
                  (if n1 < event_date0 then now E p11 else (event_date0, p11));
               (n3, p13) = now E p12;
               session_id = (n3 - seed, call)
           in Inr (call_group u os d event_date session_id, p13)))"

definition call_step ::
  "env \<Rightarrow> user \<Rightarrow> string \<Rightarrow> rat \<Rightarrow> int \<Rightarrow> int \<Rightarrow> int \<Rightarrow> int \<Rightarrow> int \<Rightarrow> nat \<Rightarrow> int \<Rightarrow> pos
     \<Rightarrow> exn + (user_event list \<times> pos)" where
  "call_step E u os seconds calls happy ratey commenty chatty call call_num p =
     (let (d, p9) = call_draws E happy ratey commenty chatty p
      in call_emit E u os seconds calls call call_num d p9)"

fun call_loop ::
  "env \<Rightarrow> user \<Rightarrow> string \<Rightarrow> rat \<Rightarrow> int \<Rightarrow> int \<Rightarrow> int \<Rightarrow> int \<Rightarrow> int \<Rightarrow> nat list \<Rightarrow> int \<Rightarrow> pos
     \<Rightarrow> exn + (user_event list \<times> pos)" where
  "call_loop E u os seconds calls happy ratey commenty chatty [] call_num p = Inr ([], p)"
| "call_loop E u os seconds calls happy ratey commenty chatty (call # cs) call_num p =
     (case call_step E u os seconds calls happy ratey commenty chatty call (call_num + 1) p of
        Inl e \<Rightarrow> Inl e
      | Inr (evs, p1) \<Rightarrow>
          (case call_loop E u os seconds calls happy ratey commenty chatty cs
                  (call_num + 1) p1 of
             Inl e \<Rightarrow> Inl e
           | Inr (rest, p2) \<Rightarrow> Inr (evs @ rest, p2)))"

text \<open>
  The body of the loop \<open>for user in users\<close> of \<open>_generate_call_events\<close>, in two
  parts: the number of calls (with \<open>os\<close> and \<open>seconds\<close>), then the propensities of the
  user and the loop.
\<close>

definition call_count :: "env \<Rightarrow> user \<Rightarrow> pos \<Rightarrow> exn + (string \<times> rat \<times> int \<times> pos)" where
  "call_count E u p =
     (let (os, p1) = choice E operating_systems p;
          (n, p2) = now E p1;
          seconds = total_seconds (n - u_reg_date u);
          days_since_reg = py_int (seconds / 86400);
          (freq, p3) = randint E 1 10 p2
      in case truediv (of_int days_since_reg) (of_int (11 - freq)) of
           Inl e \<Rightarrow> Inl e
         | Inr q \<Rightarrow> Inr (os, seconds, py_int (q * 10), p3))"

definition call_events_for :: "env \<Rightarrow> user \<Rightarrow> pos \<Rightarrow> exn + (user_event list \<times> pos)" where
  "call_events_for E u p =
     (case call_count E u p of
        Inl e \<Rightarrow> Inl e
      | Inr (os, seconds, calls, p3) \<Rightarrow>
          (let (happy, p4) = randint E 0 2 p3;
               (ratey, p5) = randint E 0 2 p4;
               (commenty, p6) = randint E 0 2 p5;
               (chatty, p7) = randint E 0 4 p6
           in call_loop E u os seconds calls happy ratey commenty chatty
                [0..<nat calls] 0 p7))"

fun generate_call_events ::
  "env \<Rightarrow> user list \<Rightarrow> pos \<Rightarrow> exn + (user_event list \<times> pos)" where
  "generate_call_events E [] p = Inr ([], p)"
| "generate_call_events E (u # us) p =
     (case call_events_for E u p of
        Inl e \<Rightarrow> Inl e
      | Inr (evs, p1) \<Rightarrow>
          (case generate_call_events E us p1 of
             Inl e \<Rightarrow> Inl e
           | Inr (rest, p2) \<Rightarrow> Inr (evs @ rest, p2)))"

definition generate_user_events ::
  "env \<Rightarrow> user list \<Rightarrow> pos \<Rightarrow> exn + (user_event list \<times> pos)" where
  "generate_user_events E users p =
     (let reg_events = generate_registration_events users
      in case generate_ticket_events E users p of
           Inl e \<Rightarrow> Inl e
         | Inr (ticket_events, p1) \<Rightarrow>
             (case generate_call_events E users p1 of
                Inl e \<Rightarrow> Inl e
              | Inr (call_events, p2) \<Rightarrow>
                  Inr (reg_events @ ticket_events @ call_events, p2)))"

text \<open>
  The shape of the call events of one user: one group of events per index of the
  loop, in the order of the indices.
\<close>

inductive call_groups :: "user \<Rightarrow> string \<Rightarrow> nat list \<Rightarrow> user_event list \<Rightarrow> bool" where
  call_groups_Nil: "call_groups u os [] []"
| call_groups_Cons:
    "call_groups u os cs evs \<Longrightarrow>
       call_groups u os (c # cs) (call_group u os d ts (x, c) @ evs)"

text \<open>The dates of the purchased events of a list, in the order of the list.\<close>

definition purchase_dates :: "company_event list \<Rightarrow> datetime list" where
  "purchase_dates evs = map ce_timestamp (filter (\<lambda>e. ce_type e = ''purchased'') evs)"

section \<open>Concrete environments\<close>

text \<open>
  \<open>zero_env\<close>: every raw random number is 0 (each draw returns its lower bound, each
  choice the first element), the clock stands at \<open>1700000000000000\<close> (14 November
  2023) and no external call fails. \<open>cx_env\<close> differs in two draws: the second raw
  number is 12 and the fifth is 1.
\<close>

definition zero_env :: env where
  "zero_env =
     \<lparr>rnd = (\<lambda>n. 0), clk = (\<lambda>n. 1700000000000000), ext = (\<lambda>n. Ok), user_rows = []\<rparr>"

definition cx_env :: env where
  "cx_env =
     \<lparr>rnd = (\<lambda>n. if n = 1 then 12 else if n = 4 then 1 else 0),
      clk = (\<lambda>n. 1700000000000000), ext = (\<lambda>n. Ok), user_rows = []\<rparr>"

text \<open>A company registered 10 days, a user 2 days and a user 20 days before that date.\<close>

definition cx_reg :: datetime where
  "cx_reg = 1700000000000000 - td_days 10"

definition cx_user :: user where
  "cx_user =
     \<lparr>u_email = ''ann@acme.test'', u_company = ''Acme'',
      u_reg_date = 1700000000000000 - td_days 2\<rparr>"

definition cx_user20 :: user where
  "cx_user20 =
     \<lparr>u_email = ''bob@acme.test'', u_company = ''Acme'',
      u_reg_date = 1700000000000000 - td_days 20\<rparr>"

text \<open>
  The parent call of the event at position \<open>i\<close> of a list of user events: the last call
  event generated before it.
\<close>

definition parent_call :: "user_event list \<Rightarrow> nat \<Rightarrow> user_event option" where
  "parent_call evs i =
     (case filter (\<lambda>e. ue_type e = ''call'') (take i evs) of
        [] \<Rightarrow> None
      | c # cs \<Rightarrow> Some (last (c # cs)))"

text \<open>The call events of a list that carry the session identifier of an event.\<close>

definition calls_of_session :: "user_event \<Rightarrow> user_event list \<Rightarrow> user_event list" where
  "calls_of_session e evs =
     filter (\<lambda>c. ue_type c = ''call'' \<and> ue_session_id c = ue_session_id e) evs"

text \<open>\<open>ones_env\<close>: every raw random number is 1; the clock and the services as before.\<close>

definition ones_env :: env where
  "ones_env =
     \<lparr>rnd = (\<lambda>n. 1), clk = (\<lambda>n. 1700000000000000), ext = (\<lambda>n. Ok), user_rows = []\<rparr>"

text \<open>
  The events derived from a call, and what links such an event \<open>e\<close> of a list to a call
  event \<open>c\<close> of the list: the date of \<open>e\<close> is the date of \<open>c\<close> (one minute earlier for
  a load event); a rating or comment event carries the session identifier of \<open>c\<close>,
  which no other call event of the list carries; a load or dial-in event carries no
  session identifier.
\<close>

definition is_sub :: "user_event \<Rightarrow> bool" where
  "is_sub e =
     (ue_type e = ''rating'' \<or> ue_type e = ''comment'' \<or> ue_type e = ''dialin''
      \<or> ue_type e = ''load'')"

definition linked :: "user_event list \<Rightarrow> user_event \<Rightarrow> user_event \<Rightarrow> bool" where
  "linked evs e c =
     (ue_type c = ''call''
      \<and> ue_timestamp e =
          (if ue_type e = ''load'' then ue_timestamp c - td_minutes 1 else ue_timestamp c)
      \<and> (if ue_type e = ''rating'' \<or> ue_type e = ''comment''
          then ue_session_id e = ue_session_id c \<and> calls_of_session e evs = [c]
          else ue_session_id e = None))"

text \<open>The call events of \<open>cx_user\<close> in \<open>ones_env\<close>.\<close>

definition cx_calls :: "user_event list" where
  "cx_calls = fst (projr (call_events_for ones_env cx_user (0, 0)))"

section \<open>The document store\<close>

text \<open>
  A Firestore document is a dictionary from field names to values. A collection is
  the list of its documents, each with the identifier under which it is stored, in
  the order in which a query streams them.
\<close>

datatype val = VInt int | VStr string | VTime datetime | VNum rat

type_synonym doc = "(string \<times> val) list"

type_synonym stored = "nat \<times> doc"

definition field :: "doc \<Rightarrow> string \<Rightarrow> val option" where
  "field d k = map_of d k"

fun set_field :: "string \<Rightarrow> val \<Rightarrow> doc \<Rightarrow> doc" where
  "set_field k v [] = [(k, v)]"
| "set_field k v ((k', v') # d) =
     (if k = k' then (k, v) # d else (k', v') # set_field k v d)"

text \<open>\<open>DocumentReference.update(fields)\<close>: the fields given are set, the others kept.\<close>

definition merge_fields :: "doc \<Rightarrow> doc \<Rightarrow> doc" where
  "merge_fields d patch = foldl (\<lambda>d' (k, v). set_field k v d') d patch"

section \<open>The state of the system\<close>

datatype row = CompanyRow company_event | UserRow user_event

text \<open>
  \<^item> \<open>fs\<close>: the Firestore collections, by name; \<open>next_id\<close>: the next fresh document
    identifier;
  \<^item> \<open>bq\<close>: the rows of the BigQuery tables, by name;
  \<^item> \<open>slept\<close>: the durations in seconds of the calls of \<open>time.sleep\<close>, in order;
  \<^item> \<open>log\<close>: the lines logged where the source catches an exception and goes on
    (the other log lines accompany a \<open>raise\<close> and are not modelled);
  \<^item> \<open>xp\<close>: the number of external calls made, the index of the next outcome of
    \<open>ext\<close>; \<open>rp\<close>: the position in the random numbers and the clock readings.
\<close>

record sys =
  fs :: "string \<Rightarrow> stored list"
  next_id :: nat
  bq :: "string \<Rightarrow> row list"
  slept :: "int list"
  log :: "string list"
  xp :: nat
  rp :: pos

definition failure_of :: "outcome \<Rightarrow> string option" where
  "failure_of out = (case out of Raises m \<Rightarrow> Some m | _ \<Rightarrow> None)"

section \<open>FirestoreService\<close>

subsection \<open>\<open>delete_all_documents\<close>\<close>

text \<open>
  The loop \<open>for doc in docs_stream\<close>. \<open>cur\<close> is \<open>current_batch_refs\<close>, \<open>sub\<close> the
  batches submitted to the executor so far, \<open>futs\<close> the indices in \<open>sub\<close> of the
  futures in \<open>batch_futures\<close>. The commit of batch \<open>k\<close> has the outcome
  \<open>ext E (x0 + k)\<close>. When \<open>2 * max_workers\<close> futures are pending, the loop waits for
  the oldest one, whose exception, if any, leaves the loop. The result is the
  batches submitted, the pending futures, \<open>current_batch_refs\<close> and the text of the
  exception that left the loop.
\<close>

fun submit_loop ::
  "env \<Rightarrow> nat \<Rightarrow> nat \<Rightarrow> nat \<Rightarrow> nat list \<Rightarrow> nat list \<Rightarrow> nat list \<Rightarrow> nat list list
     \<Rightarrow> nat list list \<times> nat list \<times> nat list \<times> string option" where
  "submit_loop E batch_size max_workers x0 [] cur futs sub = (sub, futs, cur, None)"
| "submit_loop E batch_size max_workers x0 (r # rs) cur futs sub =
     (let cur1 = cur @ [r]
      in if batch_size \<le> length cur1
         then (let futs1 = futs @ [length sub]; sub1 = sub @ [cur1]
               in if max_workers * 2 \<le> length futs1
                  then (case failure_of (ext E (x0 + hd futs1)) of
                          Some m \<Rightarrow> (sub1, tl futs1, [], Some m)
                        | None \<Rightarrow>
                            submit_loop E batch_size max_workers x0 rs [] (tl futs1) sub1)
                  else submit_loop E batch_size max_workers x0 rs [] futs1 sub1)
         else submit_loop E batch_size max_workers x0 rs cur1 futs sub)"

text \<open>
  After the loop: the remaining references are submitted, then every pending future
  is awaited and the first exception found is raised. Whatever happens, the
  executor runs every batch that was submitted.
\<close>

definition run_batches ::
  "env \<Rightarrow> nat \<Rightarrow> nat \<Rightarrow> nat \<Rightarrow> nat list \<Rightarrow> nat list list \<times> string option" where
  "run_batches E batch_size max_workers x0 refs =
     (case submit_loop E batch_size max_workers x0 refs [] [] [] of
        (sub, futs, cur, Some m) \<Rightarrow> (sub, Some m)
      | (sub, futs, cur, None) \<Rightarrow>
          (let futs1 = (if cur \<noteq> [] then futs @ [length sub] else futs);
               sub1 = (if cur \<noteq> [] then sub @ [cur] else sub)
           in (sub1,
               (case List.map_filter (\<lambda>k. failure_of (ext E (x0 + k))) futs1 of
                  [] \<Rightarrow> None
                | m # ms \<Rightarrow> Some m))))"

text \<open>The references deleted: those of the submitted batches whose commit succeeded.\<close>

definition committed :: "env \<Rightarrow> nat \<Rightarrow> nat list list \<Rightarrow> nat list" where
  "committed E x0 sub =
     concat (map (\<lambda>k. if failure_of (ext E (x0 + k)) = None then sub ! k else [])
               [0..<length sub])"

text \<open>
  \<open>delete_all_documents(collection_name, batch_size=500, max_workers=10)\<close>. The
  first outcome is that of the query \<open>select([]).limit(page_size).stream()\<close>, which
  yields at most \<open>page_size\<close> documents; the next ones are those of the commits.
  \<open>ThreadPoolExecutor\<close> raises \<open>ValueError\<close> when \<open>max_workers\<close> is 0.
\<close>

definition delete_all_documents ::
  "env \<Rightarrow> string \<Rightarrow> nat \<Rightarrow> nat \<Rightarrow> sys \<Rightarrow> (exn + nat) \<times> sys" where
  "delete_all_documents E collection_name batch_size max_workers s =
     (let wrap = (\<lambda>m. ExternalServiceError
                    (''Failed to delete collection '' @ [CHR 0x27] @ collection_name
                     @ [CHR 0x27] @ '': '' @ m));
          page_size = batch_size * 4
      in if max_workers = 0
         then (Inl (wrap ''max_workers must be greater than 0''), s)
         else (case failure_of (ext E (xp s)) of
                 Some m \<Rightarrow> (Inl (wrap m), s\<lparr>xp := xp s + 1\<rparr>)
               | None \<Rightarrow>
                   (let refs = map fst (take page_size (fs s collection_name));
                        (sub, failure) =
                           run_batches E batch_size max_workers (xp s + 1) refs;
                        deleted = committed E (xp s + 1) sub;
                        s1 = s\<lparr>fs := (fs s)(collection_name :=
                                   filter (\<lambda>(i, d). i \<notin> set deleted) (fs s collection_name)),
                               xp := xp s + 1 + length sub\<rparr>
                    in case failure of
                         Some m \<Rightarrow> (Inl (wrap m), s1)
                       | None \<Rightarrow> (Inr (length deleted), s1))))"

subsection \<open>\<open>batch_write\<close>\<close>

text \<open>
  Every document gets a fresh reference and the batch is committed at once. Nothing
  is done, and no call is made, for an empty list.
\<close>

definition batch_write :: "env \<Rightarrow> string \<Rightarrow> doc list \<Rightarrow> sys \<Rightarrow> (exn + unit) \<times> sys" where
  "batch_write E collection documents s =
     (if documents = [] then (Inr (), s)
      else (let refs = [next_id s..<next_id s + length documents];
                s1 = s\<lparr>next_id := next_id s + length documents, xp := xp s + 1\<rparr>
            in case failure_of (ext E (xp s)) of
                 Some m \<Rightarrow> (Inl (ExternalServiceError (''Batch write failed: '' @ m)), s1)
               | None \<Rightarrow>
                   (Inr (), s1\<lparr>fs := (fs s1)(collection :=
                                  fs s1 collection @ zip refs documents)\<rparr>)))"

subsection \<open>\<open>update_document_by_field\<close>\<close>

text \<open>
  The query \<open>where(field_name, "==", field_value).limit(1)\<close> yields the first document
  whose field has the value. The source is only called with a string as value.
\<close>

fun update_first :: "string \<Rightarrow> val \<Rightarrow> doc \<Rightarrow> stored list \<Rightarrow> stored list option" where
  "update_first field_name v update_fields [] = None"
| "update_first field_name v update_fields ((i, d) # ds) =
     (if field d field_name = Some v then Some ((i, merge_fields d update_fields) # ds)
      else (case update_first field_name v update_fields ds of
              None \<Rightarrow> None
            | Some ds' \<Rightarrow> Some ((i, d) # ds')))"

definition update_document_by_field ::
  "env \<Rightarrow> string \<Rightarrow> string \<Rightarrow> string \<Rightarrow> doc \<Rightarrow> sys \<Rightarrow> (exn + unit) \<times> sys" where
  "update_document_by_field E collection_name field_name field_value update_fields s =
     (let wrap = (\<lambda>m. ExternalServiceError
                    (''Failed to update document with '' @ field_name @ ''='' @ [CHR 0x27]
                     @ field_value @ [CHR 0x27] @ '': '' @ m))
      in case failure_of (ext E (xp s)) of
           Some m \<Rightarrow> (Inl (wrap m), s\<lparr>xp := xp s + 1\<rparr>)
         | None \<Rightarrow>
             (case update_first field_name (VStr field_value) update_fields
                     (fs s collection_name) of
                None \<Rightarrow>
                  (Inl (wrap (''No document found with '' @ field_name @ ''='' @ [CHR 0x27]
                              @ field_value @ [CHR 0x27] @ '' in collection ''
                              @ collection_name)),
                   s\<lparr>xp := xp s + 1\<rparr>)
              | Some ds \<Rightarrow>
                  (case failure_of (ext E (xp s + 1)) of
                     Some m \<Rightarrow> (Inl (wrap m), s\<lparr>xp := xp s + 2\<rparr>)
                   | None \<Rightarrow>
                       (Inr (), s\<lparr>fs := (fs s)(collection_name := ds),
                                  xp := xp s + 2\<rparr>))))"

section \<open>BigQueryService\<close>

text \<open>\<open>str.lower()\<close> on ASCII letters, and the test \<open>"not found" in s.lower()\<close>.\<close>

definition lower_char :: "char \<Rightarrow> char" where
  "lower_char c =
     (let n = (of_char c :: int) in if 65 \<le> n \<and> n \<le> 90 then char_of (n + 32) else c)"

definition mentions_not_found :: "string \<Rightarrow> bool" where
  "mentions_not_found m = sublist ''not found'' (map lower_char m)"

text \<open>
  \<open>execute_query\<close> for the query of \<open>_get_users\<close>: the rows of the seed table in the
  order of their e-mail addresses, all of them when \<open>user_limit\<close> is \<open>None\<close> or 0 (the
  source adds the \<open>LIMIT\<close> clause only for a limit that is true).
\<close>

definition get_users :: "env \<Rightarrow> nat option \<Rightarrow> sys \<Rightarrow> (exn + seed_user list) \<times> sys" where
  "get_users E user_limit s =
     (case failure_of (ext E (xp s)) of
        Some m \<Rightarrow>
          (Inl (ExternalServiceError (''BigQuery service failed to fetch user data: '' @ m)),
           s\<lparr>xp := xp s + 1\<rparr>)
      | None \<Rightarrow>
          (Inr (case user_limit of
                  None \<Rightarrow> user_rows E
                | Some n \<Rightarrow> if n = 0 then user_rows E else take n (user_rows E)),
           s\<lparr>xp := xp s + 1\<rparr>))"

text \<open>\<open>delete_all_rows\<close>: \<open>TRUNCATE TABLE\<close>.\<close>

definition delete_all_rows :: "env \<Rightarrow> string \<Rightarrow> sys \<Rightarrow> (exn + unit) \<times> sys" where
  "delete_all_rows E table_name s =
     (case failure_of (ext E (xp s)) of
        Some m \<Rightarrow>
          (Inl (ExternalServiceError (''Error truncating table '' @ table_name @ '': '' @ m)),
           s\<lparr>xp := xp s + 1\<rparr>)
      | None \<Rightarrow> (Inr (), s\<lparr>bq := (bq s)(table_name := []), xp := xp s + 1\<rparr>))"

subsection \<open>\<open>write_rows_to_table\<close>\<close>

definition insert_batch_size :: nat where
  "insert_batch_size = 10000"

definition max_retries :: nat where
  "max_retries = 3"

definition base_delay :: int where
  "base_delay = 1"

text \<open>
  The slices \<open>rows[i : i + batch_size]\<close> for \<open>i\<close> in \<open>range(0, len(rows), batch_size)\<close>.
\<close>

definition chunks :: "nat \<Rightarrow> 'a list \<Rightarrow> 'a list list" where
  "chunks n xs = map (\<lambda>k. take n (drop (k * n) xs)) [0..<(length xs + n - 1) div n]"

text \<open>
  One call of \<open>insert_rows_json\<close> returns no error (\<open>Ok\<close>), returns a list of errors
  (\<open>RowErrors\<close>, which the source turns into an \<open>ExternalServiceError\<close>) or raises:
  \<open>insert_error\<close> is the exception that reaches the handler of the retry loop.
\<close>

definition insert_error :: "outcome \<Rightarrow> exn option" where
  "insert_error out =
     (case out of
        Ok \<Rightarrow> None
      | RowErrors errors \<Rightarrow>
          Some (ExternalServiceError (''BigQuery insert_rows_json errors: '' @ errors))
      | Raises m \<Rightarrow> Some (BackendError m))"

text \<open>
  The loop \<open>for retry_attempt in range(max_retries)\<close> for one batch. The result is
  the number of rows inserted.
\<close>

fun insert_attempts ::
  "env \<Rightarrow> string \<Rightarrow> row list \<Rightarrow> nat list \<Rightarrow> sys \<Rightarrow> (exn + nat) \<times> sys" where
  "insert_attempts E table_name batch [] s = (Inr 0, s)"
| "insert_attempts E table_name batch (retry_attempt # rest) s =
     (let s1 = s\<lparr>xp := xp s + 1\<rparr>
      in case insert_error (ext E (xp s)) of
           None \<Rightarrow>
             (Inr (length batch), s1\<lparr>bq := (bq s1)(table_name := bq s1 table_name @ batch)\<rparr>)
         | Some e \<Rightarrow>
             (if mentions_not_found (str_exn e) \<and> retry_attempt < max_retries - 1
              then insert_attempts E table_name batch rest
                     (s1\<lparr>slept := slept s1 @ [base_delay * 2 ^ retry_attempt]\<rparr>)
              else (Inl e, s1)))"

text \<open>The loop over the batches, with \<open>total_inserted\<close>.\<close>

fun insert_batches ::
  "env \<Rightarrow> string \<Rightarrow> row list list \<Rightarrow> nat \<Rightarrow> sys \<Rightarrow> (exn + nat) \<times> sys" where
  "insert_batches E table_name [] total_inserted s = (Inr total_inserted, s)"
| "insert_batches E table_name (batch # bs) total_inserted s =
     (case insert_attempts E table_name batch [0..<max_retries] s of
        (Inl e, s1) \<Rightarrow> (Inl e, s1)
      | (Inr n, s1) \<Rightarrow> insert_batches E table_name bs (total_inserted + n) s1)"

text \<open>
  \<open>write_rows_to_table\<close> returns \<open>rows_inserted\<close> (its \<open>success\<close> is always true) or
  raises.
\<close>

definition write_rows_to_table :: "env \<Rightarrow> string \<Rightarrow> row list \<Rightarrow> sys \<Rightarrow> (exn + nat) \<times> sys" where
  "write_rows_to_table E table_name rows s =
     (if rows = [] then (Inr 0, s)
      else (case insert_batches E table_name (chunks insert_batch_size rows) 0 s of
              (Inl e, s1) \<Rightarrow>
                (Inl (ExternalServiceError
                        (''Error writing rows to table '' @ table_name @ '': '' @ str_exn e)),
                 s1)
            | (Inr n, s1) \<Rightarrow> (Inr n, s1)))"

section \<open>DemoDataService: the documents\<close>

record company =
  c_name :: string
  c_earliest_reg :: datetime
  c_boxes_bought :: int
  c_boxes_prov :: int

record project =
  pj_name :: string
  pj_company :: string
  pj_date :: datetime

record trending =
  tr_metric :: string
  tr_company :: string
  tr_value :: rat
  tr_date :: datetime

record renewal =
  rn_company :: string
  rn_amount :: int
  rn_health :: int
  rn_due :: datetime

text \<open>The dictionaries that the source hands to \<open>batch_write\<close>.\<close>

definition user_doc :: "user \<Rightarrow> doc" where
  "user_doc u =
     [(''email'', VStr (u_email u)), (''company'', VStr (u_company u)),
      (''reg_date'', VTime (u_reg_date u))]"

definition company_doc :: "company \<Rightarrow> doc" where
  "company_doc c =
     [(''name'', VStr (c_name c)), (''earliest_reg'', VTime (c_earliest_reg c)),
      (''boxes_bought'', VInt (c_boxes_bought c)), (''boxes_prov'', VInt (c_boxes_prov c))]"

definition project_doc :: "project \<Rightarrow> doc" where
  "project_doc x =
     [(''name'', VStr (pj_name x)), (''company'', VStr (pj_company x)),
      (''date'', VTime (pj_date x))]"

definition trending_doc :: "trending \<Rightarrow> doc" where
  "trending_doc x =
     [(''metric'', VStr (tr_metric x)), (''company'', VStr (tr_company x)),
      (''value'', VNum (tr_value x)), (''date'', VTime (tr_date x))]"

definition renewal_doc :: "renewal \<Rightarrow> doc" where
  "renewal_doc x =
     [(''company'', VStr (rn_company x)), (''amount'', VInt (rn_amount x)),
      (''health'', VInt (rn_health x)), (''due'', VTime (rn_due x))]"

text \<open>A loop \<open>for x in xs\<close> that extends a list with what its body produces.\<close>

fun for_each :: "('a \<Rightarrow> pos \<Rightarrow> 'b list \<times> pos) \<Rightarrow> 'a list \<Rightarrow> pos \<Rightarrow> 'b list \<times> pos" where
  "for_each body [] p = ([], p)"
| "for_each body (x # xs) p =
     (let (ys, p1) = body x p; (zs, p2) = for_each body xs p1 in (ys @ zs, p2))"

subsection \<open>\<open>_create_user_docs\<close>\<close>

definition create_user_docs :: "env \<Rightarrow> seed_user list \<Rightarrow> pos \<Rightarrow> user list \<times> pos" where
  "create_user_docs E rows p =
     for_each
       (\<lambda>row q.
          (let (n, q1) = now E q;
               (m, q2) = randint E 0 demo_max_reg_delay_minutes q1;
               reg_date = n + (td_days (- su_offset row) + td_minutes (- m))
           in ([\<lparr>u_email = su_email row, u_company = su_company row,
                  u_reg_date = reg_date\<rparr>], q2)))
       rows p"

subsection \<open>\<open>_create_company_docs\<close>\<close>

text \<open>
  \<open>companies_users[user["company"]].append(user)\<close> on a dictionary that keeps the
  order in which its keys were first inserted.
\<close>

fun add_user :: "user \<Rightarrow> (string \<times> user list) list \<Rightarrow> (string \<times> user list) list" where
  "add_user u [] = [(u_company u, [u])]"
| "add_user u ((n, us) # g) =
     (if n = u_company u then (n, us @ [u]) # g else (n, us) # add_user u g)"

definition create_company_docs :: "user list \<Rightarrow> company list" where
  "create_company_docs users =
     map (\<lambda>(company_name, company_users).
            \<lparr>c_name = company_name,
             c_earliest_reg = min_list (map u_reg_date company_users),
             c_boxes_bought = 0, c_boxes_prov = 0\<rparr>)
         (foldl (\<lambda>g u. add_user u g) [] users)"

subsection \<open>\<open>_create_project_docs\<close>\<close>

text \<open>\<open>timedelta(days=x)\<close> for a float \<open>x\<close>.\<close>

definition td_of_days :: "rat \<Rightarrow> timedelta" where
  "td_of_days x = round_half_even (x * 86400000000)"

fun project_dates_loop ::
  "env \<Rightarrow> datetime \<Rightarrow> int \<Rightarrow> rat \<Rightarrow> nat list \<Rightarrow> pos \<Rightarrow> datetime list \<times> pos" where
  "project_dates_loop E period_start period_length_days interval_days [] p = ([], p)"
| "project_dates_loop E period_start period_length_days interval_days (i # is) p =
     (let base_days = of_nat i * interval_days;
          randomness_range = max 1 (py_int (interval_days * (1 / 4)));
          (random_offset, p1) = randint E (- randomness_range) randomness_range p;
          final_days =
             max 0 (min (of_int (period_length_days - 1)) (base_days + of_int random_offset));
          project_date = period_start + td_of_days final_days;
          (rest, p2) =
             project_dates_loop E period_start period_length_days interval_days is p1
      in (project_date # rest, p2))"

definition projects_for_company :: "env \<Rightarrow> company \<Rightarrow> pos \<Rightarrow> project list \<times> pos" where
  "projects_for_company E company p =
     (let (num_projects, p1) =
             randint E demo_min_projects_per_company demo_max_projects_per_company p;
          period_start = c_earliest_reg company + td_days 90;
          (n, p2) = now E p1;
          period_end = n + td_days 30
      in if period_end \<le> period_start then ([], p2)
         else
           (let period_length_days = td_whole_days (period_end - period_start)
            in if 0 < num_projects
               then
                 (let interval_days = of_int period_length_days / of_int num_projects;
                      (project_dates, p3) =
                         project_dates_loop E period_start period_length_days interval_days
                           [0..<nat num_projects] p2;
                      (current_date, p4) = now E p3;
                      future_projects = filter (\<lambda>d. current_date < d) project_dates;
                      future_start = current_date + td_days 1;
                      future_range_days = td_whole_days (period_end - future_start);
                      (project_dates1, p5) =
                         (if future_projects = [] \<and> future_start < period_end
                             \<and> 0 < future_range_days
                          then (let (k, q) = randint E 0 (future_range_days - 1) p4
                                in (butlast project_dates @ [future_start + td_days k], q))
                          else (project_dates, p4))
                  in for_each
                       (\<lambda>project_date q.
                          (let (project_name, q1) = choice E project_list q
                           in ([\<lparr>pj_name = project_name, pj_company = c_name company,
                                  pj_date = project_date\<rparr>], q1)))
                       project_dates1 p5)
               else ([], p2)))"

definition create_project_docs :: "env \<Rightarrow> company list \<Rightarrow> pos \<Rightarrow> project list \<times> pos" where
  "create_project_docs E companies p = for_each (projects_for_company E) companies p"

subsection \<open>\<open>_create_trending_data_docs\<close>\<close>

text \<open>
  \<open>random.uniform(a, b)\<close> is \<open>a + (b - a) * random()\<close>, and \<open>random()\<close> a multiple of
  \<open>2 ** -53\<close> in \<open>[0, 1)\<close>; \<open>round(x, 2)\<close>.
\<close>

definition uniform :: "env \<Rightarrow> rat \<Rightarrow> rat \<Rightarrow> pos \<Rightarrow> rat \<times> pos" where
  "uniform E a b p =
     (a + (b - a) * (of_int (rnd E (fst p) mod 9007199254740992) / 9007199254740992),
      (Suc (fst p), snd p))"

definition round2 :: "rat \<Rightarrow> rat" where
  "round2 x = of_int (round_half_even (x * 100)) / 100"

text \<open>\<open>range(0, period, interval)\<close> for a positive \<open>interval\<close>.\<close>

definition range_step :: "nat \<Rightarrow> nat \<Rightarrow> nat list" where
  "range_step period interval = filter (\<lambda>d. d mod interval = 0) [0..<period]"

definition create_trending_data_docs ::
  "env \<Rightarrow> company list \<Rightarrow> pos \<Rightarrow> trending list \<times> pos" where
  "create_trending_data_docs E companies p =
     for_each
       (\<lambda>company.
          for_each
            (\<lambda>metric.
               for_each
                 (\<lambda>days_offset q.
                    (let (n, q1) = now E q;
                         date = n - td_days (int days_offset);
                         (v, q2) = uniform E 10 100 q1
                     in ([\<lparr>tr_metric = metric, tr_company = c_name company,
                            tr_value = round2 v, tr_date = date\<rparr>], q2)))
                 (range_step demo_trending_data_period_days
                    demo_trending_data_interval_days))
            (take demo_trending_metrics_count metric_list))
       companies p"

subsection \<open>\<open>_generate_company_events\<close>\<close>

definition generate_company_events ::
  "env \<Rightarrow> company list \<Rightarrow> pos \<Rightarrow> company_event list \<times> pos" where
  "generate_company_events E companies p =
     for_each (\<lambda>company. build_company_events E (c_name company) (c_earliest_reg company))
       companies p"

subsection \<open>\<open>_generate_company_updates\<close>\<close>

text \<open>
  The dictionaries \<open>purchases\<close> and \<open>provisions\<close>, as association lists in the order
  in which the keys were inserted. Adding a quantity that is \<open>None\<close> raises
  \<open>TypeError\<close>.
\<close>

fun add_total :: "string \<Rightarrow> int \<Rightarrow> (string \<times> int) list \<Rightarrow> (string \<times> int) list" where
  "add_total c n [] = [(c, 0 + n)]"
| "add_total c n ((c', t) # ts) =
     (if c = c' then (c', t + n) # ts else (c', t) # add_total c n ts)"

fun tally ::
  "company_event list \<Rightarrow> (string \<times> int) list \<Rightarrow> (string \<times> int) list
     \<Rightarrow> exn + ((string \<times> int) list \<times> (string \<times> int) list)" where
  "tally [] purchases provisions = Inr (purchases, provisions)"
| "tally (event # es) purchases provisions =
     (if ce_type event = ''purchased''
      then (case ce_purchased event of
              None \<Rightarrow> Inl TypeError
            | Some n \<Rightarrow> tally es (add_total (ce_company event) n purchases) provisions)
      else if ce_type event = ''provisioned''
      then (case ce_provisioned event of
              None \<Rightarrow> Inl TypeError
            | Some n \<Rightarrow> tally es purchases (add_total (ce_company event) n provisions))
      else tally es purchases provisions)"

definition get_total :: "(string \<times> int) list \<Rightarrow> string \<Rightarrow> int" where
  "get_total ts c = (case map_of ts c of None \<Rightarrow> 0 | Some t \<Rightarrow> t)"

text \<open>
  A company update \<open>(company, {"purchased": [p], "provisioned": [v]})\<close> is the triple
  \<open>(company, p, v)\<close>. The source iterates over a set of names, in an order that Python
  does not specify; the model takes the order of first insertion.
\<close>

type_synonym company_update = "string \<times> int \<times> int"

definition generate_company_updates :: "company_event list \<Rightarrow> exn + company_update list" where
  "generate_company_updates company_events =
     (case tally company_events [] [] of
        Inl e \<Rightarrow> Inl e
      | Inr (purchases, provisions) \<Rightarrow>
          (let all_companies = remdups (map fst purchases @ map fst provisions)
           in Inr (map (\<lambda>c. (c, get_total purchases c, get_total provisions c))
                     all_companies)))"

subsection \<open>\<open>_create_renewal_docs\<close>\<close>

definition create_renewal_docs ::
  "env \<Rightarrow> company_update list \<Rightarrow> pos \<Rightarrow> renewal list \<times> pos" where
  "create_renewal_docs E company_updates p =
     for_each
       (\<lambda>(company_name, purchased_total, provisioned_total) q.
          (let amount = purchased_total * 2499;
               (health_index, q1) = randint E 0 5 q;
               (health, q2) =
                  (if health_index < 1 then randint E 10 30 q1
                   else if health_index < 3 then randint E 30 60 q1
                   else randint E 60 100 q1);
               (n, q3) = now E q2;
               (d, q4) = randint E 30 120 q3
           in ([\<lparr>rn_company = company_name, rn_amount = amount, rn_health = health,
                  rn_due = n + td_days d\<rparr>], q4)))
       company_updates p"

section \<open>DemoDataService: the stages of the pipeline\<close>

text \<open>
  Each stage runs on the state of the system and returns its value or the exception
  it raises. The generators read the random numbers and the clock from the position
  \<open>rp\<close> of the state.
\<close>

definition create_user_collection ::
  "env \<Rightarrow> nat option \<Rightarrow> sys \<Rightarrow> (exn + user list) \<times> sys" where
  "create_user_collection E user_limit s =
     (case delete_all_documents E ''users'' 500 10 s of
        (Inl e, s1) \<Rightarrow>
          (Inl (ExternalServiceError
                  (''Firestore service failed to delete existing user documents: ''
                   @ str_exn e)), s1)
      | (Inr deleted_count, s1) \<Rightarrow>
          (case get_users E user_limit s1 of
             (Inl e, s2) \<Rightarrow> (Inl e, s2)
           | (Inr rows, s2) \<Rightarrow>
               (if rows = []
                then (Inl (ExternalServiceError
                             (''No user records found in BigQuery database. ''
                              @ ''Cannot generate demo data without source user data.'')),
                      s2)
                else
                  (let (users, p) = create_user_docs E rows (rp s2);
                       s3 = s2\<lparr>rp := p\<rparr>
                   in case batch_write E ''users'' (map user_doc users) s3 of
                        (Inl e, s4) \<Rightarrow>
                          (Inl (ExternalServiceError
                                  (''Firestore service failed to create user documents: ''
                                   @ str_exn e)), s4)
                      | (Inr u, s4) \<Rightarrow> (Inr users, s4)))))"

definition create_company_collection ::
  "env \<Rightarrow> user list \<Rightarrow> sys \<Rightarrow> (exn + company list) \<times> sys" where
  "create_company_collection E users s =
     (case delete_all_documents E ''companies'' 500 10 s of
        (Inl e, s1) \<Rightarrow>
          (Inl (ExternalServiceError
                  (''Firestore service failed to delete existing company documents: ''
                   @ str_exn e)), s1)
      | (Inr deleted_count, s1) \<Rightarrow>
          (let companies = create_company_docs users
           in case batch_write E ''companies'' (map company_doc companies) s1 of
                (Inl e, s2) \<Rightarrow>
                  (Inl (ExternalServiceError
                          (''Firestore service failed to create company documents: ''
                           @ str_exn e)), s2)
              | (Inr u, s2) \<Rightarrow> (Inr companies, s2)))"

definition create_projects_collection ::
  "env \<Rightarrow> company list \<Rightarrow> sys \<Rightarrow> (exn + project list) \<times> sys" where
  "create_projects_collection E companies s =
     (case delete_all_documents E ''projects'' 500 10 s of
        (Inl e, s1) \<Rightarrow>
          (Inl (ExternalServiceError
                  (''Firestore service failed to delete existing project documents: ''
                   @ str_exn e)), s1)
      | (Inr deleted_count, s1) \<Rightarrow>
          (let (projects, p) = create_project_docs E companies (rp s1);
               s2 = s1\<lparr>rp := p\<rparr>
           in case batch_write E ''projects'' (map project_doc projects) s2 of
                (Inl e, s3) \<Rightarrow>
                  (Inl (ExternalServiceError
                          (''Firestore service failed to create project documents: ''
                           @ str_exn e)), s3)
              | (Inr u, s3) \<Rightarrow> (Inr projects, s3)))"

definition create_trending_collection ::
  "env \<Rightarrow> company list \<Rightarrow> sys \<Rightarrow> (exn + trending list) \<times> sys" where
  "create_trending_collection E companies s =
     (case delete_all_documents E ''trending'' 500 10 s of
        (Inl e, s1) \<Rightarrow>
          (Inl (ExternalServiceError
                  (''Firestore service failed to delete existing trending documents: ''
                   @ str_exn e)), s1)
      | (Inr deleted_count, s1) \<Rightarrow>
          (let (trending_data, p) = create_trending_data_docs E companies (rp s1);
               s2 = s1\<lparr>rp := p\<rparr>
           in case batch_write E ''trending'' (map trending_doc trending_data) s2 of
                (Inl e, s3) \<Rightarrow>
                  (Inl (ExternalServiceError
                          (''Firestore service failed to create trending documents: ''
                           @ str_exn e)), s3)
              | (Inr u, s3) \<Rightarrow> (Inr trending_data, s3)))"

definition create_renewals_collection ::
  "env \<Rightarrow> company_update list \<Rightarrow> sys \<Rightarrow> (exn + renewal list) \<times> sys" where
  "create_renewals_collection E company_updates s =
     (case delete_all_documents E ''renewals'' 500 10 s of
        (Inl e, s1) \<Rightarrow>
          (Inl (ExternalServiceError
                  (''Firestore service failed to delete existing renewal documents: ''
                   @ str_exn e)), s1)
      | (Inr deleted_count, s1) \<Rightarrow>
          (let (renewals, p) = create_renewal_docs E company_updates (rp s1);
               s2 = s1\<lparr>rp := p\<rparr>
           in case batch_write E ''renewals'' (map renewal_doc renewals) s2 of
                (Inl e, s3) \<Rightarrow>
                  (Inl (ExternalServiceError
                          (''Firestore service failed to create renewal documents: ''
                           @ str_exn e)), s3)
              | (Inr u, s3) \<Rightarrow> (Inr renewals, s3)))"

text \<open>
  \<open>_clear_bigquery_tables\<close> catches the exception of a truncation, logs a warning and
  goes on; it ends with \<open>time.sleep(2)\<close>.
\<close>

fun clear_tables :: "env \<Rightarrow> string list \<Rightarrow> sys \<Rightarrow> sys" where
  "clear_tables E [] s = s"
| "clear_tables E (table_name # ts) s =
     (case delete_all_rows E table_name s of
        (Inr u, s1) \<Rightarrow> clear_tables E ts s1
      | (Inl e, s1) \<Rightarrow>
          clear_tables E ts
            (s1\<lparr>log := log s1 @ [''Could not clear table '' @ table_name @ '': ''
                                   @ str_exn e]\<rparr>))"

definition clear_bigquery_tables :: "env \<Rightarrow> sys \<Rightarrow> sys" where
  "clear_bigquery_tables E s =
     (let s1 = clear_tables E [''company_events'', ''user_events''] s
      in s1\<lparr>slept := slept s1 @ [2]\<rparr>)"

definition write_company_events_to_bigquery ::
  "env \<Rightarrow> company_event list \<Rightarrow> sys \<Rightarrow> (exn + unit) \<times> sys" where
  "write_company_events_to_bigquery E company_events s =
     (case write_rows_to_table E ''company_events'' (map CompanyRow company_events) s of
        (Inl e, s1) \<Rightarrow>
          (Inl (ExternalServiceError
                  (''BigQuery service failed to write company events: '' @ str_exn e)), s1)
      | (Inr n, s1) \<Rightarrow> (Inr (), s1))"

definition write_user_events_to_bigquery ::
  "env \<Rightarrow> user_event list \<Rightarrow> sys \<Rightarrow> (exn + unit) \<times> sys" where
  "write_user_events_to_bigquery E user_events s =
     (case write_rows_to_table E ''user_events'' (map UserRow user_events) s of
        (Inl e, s1) \<Rightarrow>
          (Inl (ExternalServiceError
                  (''BigQuery service failed to write user events: '' @ str_exn e)), s1)
      | (Inr n, s1) \<Rightarrow> (Inr (), s1))"

text \<open>
  \<open>_update_company_docs_with_purchases_and_provisions\<close>: the exception of an update
  is caught and logged, and the loop goes on. The result is \<open>updated_count\<close>, which
  the source logs.
\<close>

fun update_company_docs :: "env \<Rightarrow> company_update list \<Rightarrow> nat \<Rightarrow> sys \<Rightarrow> nat \<times> sys" where
  "update_company_docs E [] updated_count s = (updated_count, s)"
| "update_company_docs E ((company_name, purchased_total, provisioned_total) # us)
       updated_count s =
     (let update_fields =
             [(''boxes_bought'', VInt purchased_total),
              (''boxes_prov'', VInt provisioned_total)]
      in case update_document_by_field E ''companies'' ''name'' company_name
                update_fields s of
           (Inr u, s1) \<Rightarrow> update_company_docs E us (updated_count + 1) s1
         | (Inl e, s1) \<Rightarrow>
             update_company_docs E us updated_count
               (s1\<lparr>log := log s1 @ [''Failed to update company document for ''
                                      @ company_name]\<rparr>))"

section \<open>DemoDataService: \<open>create_demo_data\<close>\<close>

text \<open>The local variables of \<open>create_demo_data\<close> from which it builds its statistics.\<close>

record artefacts =
  a_users :: "user list"
  a_companies :: "company list"
  a_projects :: "project list"
  a_trending :: "trending list"
  a_renewals :: "renewal list"
  a_company_events :: "company_event list"
  a_user_events :: "user_event list"

record stats =
  st_users :: nat
  st_companies :: nat
  st_projects :: nat
  st_trending_entries :: nat
  st_renewals :: nat
  st_company_events :: nat
  st_user_events :: nat

text \<open>
  The dictionary that \<open>create_demo_data\<close> returns: with \<open>success\<close> true, a message and
  the statistics, or with \<open>success\<close> false, a message and the text of the error.
\<close>

datatype result = Success string stats | Failure string string

text \<open>The body of the \<open>try\<close> statement.\<close>

definition demo_data_body :: "env \<Rightarrow> nat option \<Rightarrow> sys \<Rightarrow> (exn + artefacts) \<times> sys" where
  "demo_data_body E user_limit s =
     (case create_user_collection E user_limit s of
        (Inl e, s1) \<Rightarrow> (Inl e, s1)
      | (Inr users, s1) \<Rightarrow>
     (case create_company_collection E users s1 of
        (Inl e, s2) \<Rightarrow> (Inl e, s2)
      | (Inr companies, s2) \<Rightarrow>
     (case create_projects_collection E companies s2 of
        (Inl e, s3) \<Rightarrow> (Inl e, s3)
      | (Inr projects, s3) \<Rightarrow>
     (case create_trending_collection E companies s3 of
        (Inl e, s4) \<Rightarrow> (Inl e, s4)
      | (Inr trending_data, s4) \<Rightarrow>
     (let (company_events, p) = generate_company_events E companies (rp s4);
          s5 = clear_bigquery_tables E (s4\<lparr>rp := p\<rparr>)
      in case write_company_events_to_bigquery E company_events s5 of
           (Inl e, s6) \<Rightarrow> (Inl e, s6)
         | (Inr u, s6) \<Rightarrow>
     (case generate_company_updates company_events of
        Inl e \<Rightarrow> (Inl e, s6)
      | Inr company_updates \<Rightarrow>
     (case create_renewals_collection E company_updates s6 of
        (Inl e, s7) \<Rightarrow> (Inl e, s7)
      | (Inr renewals, s7) \<Rightarrow>
     (let (updated_count, s8) = update_company_docs E company_updates 0 s7
      in case generate_user_events E users (rp s8) of
           Inl e \<Rightarrow> (Inl e, s8)
         | Inr (user_events, q) \<Rightarrow>
     (case write_user_events_to_bigquery E user_events (s8\<lparr>rp := q\<rparr>) of
        (Inl e, s9) \<Rightarrow> (Inl e, s9)
      | (Inr u, s9) \<Rightarrow>
          (Inr \<lparr>a_users = users, a_companies = companies, a_projects = projects,
                a_trending = trending_data, a_renewals = renewals,
                a_company_events = company_events, a_user_events = user_events\<rparr>,
           s9))))))))))"

definition create_demo_data :: "env \<Rightarrow> nat option \<Rightarrow> sys \<Rightarrow> result \<times> sys" where
  "create_demo_data E user_limit s =
     (case demo_data_body E user_limit s of
        (Inr a, s1) \<Rightarrow>
          (Success ''Demo data created successfully''
             \<lparr>st_users = length (a_users a), st_companies = length (a_companies a),
              st_projects = length (a_projects a),
              st_trending_entries = length (a_trending a),
              st_renewals = length (a_renewals a),
              st_company_events = length (a_company_events a),
              st_user_events = length (a_user_events a)\<rparr>, s1)
      | (Inl e, s1) \<Rightarrow>
          (Failure (''Demo data creation failed: '' @ str_exn e) (str_exn e), s1))"

text \<open>
  \<open>empty_sys\<close>: nothing stored, nothing done yet. \<open>two_companies\<close>: a \<open>companies\<close>
  collection with the documents of Acme and Bolt.
\<close>

definition empty_sys :: sys where
  "empty_sys =
     \<lparr>fs = (\<lambda>c. []), next_id = 0, bq = (\<lambda>t. []), slept = [], log = [], xp = 0,
      rp = (0, 0)\<rparr>"

definition two_companies :: sys where
  "two_companies =
     empty_sys\<lparr>fs := (\<lambda>c. if c = ''companies''
        then [(0, [(''name'', VStr ''Acme''), (''earliest_reg'', VTime 1699136000000000),
                   (''boxes_bought'', VInt 0), (''boxes_prov'', VInt 0)]),
              (1, [(''name'', VStr ''Bolt''), (''earliest_reg'', VTime 1699740800000000),
                   (''boxes_bought'', VInt 0), (''boxes_prov'', VInt 0)])]
        else []),
      next_id := 2\<rparr>"

text \<open>\<open>failing_env\<close>: as \<open>zero_env\<close>, but every external call raises.\<close>

definition failing_env :: env where
  "failing_env = zero_env\<lparr>ext := (\<lambda>n. Raises ''503 unavailable'')\<rparr>"

text \<open>
  \<open>not_found_twice_env\<close>: the first two external calls raise "not found", the others
  succeed. \<open>not_found_env\<close>: every external call raises "not found". \<open>cx_rows\<close>: two
  rows for the table \<open>company_events\<close>.
\<close>

definition not_found_twice_env :: env where
  "not_found_twice_env =
     zero_env\<lparr>ext := (\<lambda>n. if n < 2 then Raises ''404 Not found: Table company_events''
                             else Ok)\<rparr>"

definition not_found_env :: env where
  "not_found_env = zero_env\<lparr>ext := (\<lambda>n. Raises ''404 Not found: Table company_events'')\<rparr>"

definition cx_rows :: "row list" where
  "cx_rows =
     [CompanyRow (pur_event cx_reg ''Acme'' 1),
      CompanyRow (prov_event (cx_reg + td_days 2) ''Acme'' 100000 1)]"

text \<open>\<open>crowded_sys\<close>: a \<open>users\<close> collection of 2001 documents, numbered from 0.\<close>

definition old_user :: doc where
  "old_user = [(''email'', VStr ''old@acme.test'')]"

definition crowded_sys :: sys where
  "crowded_sys =
     empty_sys\<lparr>fs := (\<lambda>c. if c = ''users'' then map (\<lambda>i. (i, old_user)) [0..<2001] else []),
               next_id := 2001\<rparr>"

text \<open>
  \<open>one_user_sys\<close>: a \<open>users\<close> collection with one document. \<open>no_users_message\<close>: the
  text of the exception that \<open>_create_user_collection\<close> raises when the query returns
  no row.
\<close>

definition one_user_sys :: sys where
  "one_user_sys =
     empty_sys\<lparr>fs := (\<lambda>c. if c = ''users'' then [(0, old_user)] else []), next_id := 1\<rparr>"

definition no_users_message :: string where
  "no_users_message =
     ''No user records found in BigQuery database. ''
     @ ''Cannot generate demo data without source user data.''"

section \<open>Verification\<close>

subsection \<open>Random draws stay in their range\<close>

lemma randint_lower: "a \<le> b \<Longrightarrow> a \<le> fst (randint E a b p)"
  by (simp add: randint_def)

lemma randint_upper: "a \<le> b \<Longrightarrow> fst (randint E a b p) \<le> b"
proof -
  assume ab: "a \<le> b"
  then have "rnd E (fst p) mod (b - a + 1) < b - a + 1" by (intro pos_mod_bound) simp
  then show ?thesis by (simp add: randint_def)
qed

lemma randint_range:
  "randint E a b p = (x, p') \<Longrightarrow> a \<le> b \<Longrightarrow> a \<le> x \<and> x \<le> b"
  using randint_lower [of a b E p] randint_upper [of a b E p] by simp

subsection \<open>Purchased and provisioned quantities of one company\<close>

lemma purchased_sum_Nil [simp]: "purchased_sum [] = 0"
  by (simp add: purchased_sum_def)

lemma provisioned_sum_Nil [simp]: "provisioned_sum [] = 0"
  by (simp add: provisioned_sum_def)

lemma purchased_sum_append [simp]:
  "purchased_sum (xs @ ys) = purchased_sum xs + purchased_sum ys"
  by (simp add: purchased_sum_def)

lemma provisioned_sum_append [simp]:
  "provisioned_sum (xs @ ys) = provisioned_sum xs + provisioned_sum ys"
  by (simp add: provisioned_sum_def)

lemma purchased_sum_pur [simp]:
  "purchased_sum (pur_event t c n # xs) = n + purchased_sum xs"
  by (simp add: purchased_sum_def pur_event_def quantity_def)

lemma provisioned_sum_pur [simp]:
  "provisioned_sum (pur_event t c n # xs) = provisioned_sum xs"
  by (simp add: provisioned_sum_def pur_event_def)

lemma purchased_sum_prov [simp]:
  "purchased_sum (prov_event t c s b # xs) = purchased_sum xs"
  by (simp add: purchased_sum_def prov_event_def)

lemma provisioned_sum_prov [simp]:
  "provisioned_sum (prov_event t c s b # xs) = 1 + provisioned_sum xs"
  by (simp add: provisioned_sum_def prov_event_def quantity_def)

lemma initial_provisioning_sums:
  "purchased_sum (fst (initial_provisioning E c d ds p)) = 0 \<and>
   provisioned_sum (fst (initial_provisioning E c d ds p)) = int (length ds)"
  by (induction ds arbitrary: p) (simp_all add: Let_def split_beta)

lemma provisioning_sums:
  "purchased_sum (fst (provisioning E c d ds b p)) = 0 \<and>
   provisioned_sum (fst (provisioning E c d ds b p)) = int (length ds)"
  by (induction ds arbitrary: b p) (simp_all add: Let_def split_beta)

lemma initial_provisioning_sums':
  "initial_provisioning E c d ds p = (evs, p') \<Longrightarrow>
     purchased_sum evs = 0 \<and> provisioned_sum evs = int (length ds)"
  using initial_provisioning_sums [of E c d ds p] by simp

lemma provisioning_sums':
  "provisioning E c d ds b p = (evs, b', p') \<Longrightarrow>
     purchased_sum evs = 0 \<and> provisioned_sum evs = int (length ds)"
  using provisioning_sums [of E c d ds b p] by simp

lemma additional_purchases_sums:
  "provisioned_sum (fst (additional_purchases E c r m ps b p))
     \<le> purchased_sum (fst (additional_purchases E c r m ps b p))"
proof (induction ps arbitrary: b p)
  case Nil
  show ?case by simp
next
  case (Cons i ps)
  obtain purchased p1 where r1: "randint E 5 15 p = (purchased, p1)" by (meson surj_pair)
  have pl: "5 \<le> purchased" using randint_range [OF r1] by simp
  obtain n p2 where r2: "now E p1 = (n, p2)" by (meson surj_pair)
  obtain d p3 where r3: "randint E 2 14 p2 = (d, p3)" by (meson surj_pair)
  obtain last_prov p4 where r4: "randint E (purchased div 2) purchased p3 = (last_prov, p4)"
    by (meson surj_pair)
  have lp: "last_prov \<le> purchased" "0 \<le> last_prov"
    using randint_range [OF r4] pl by linarith+
  obtain provs b1 p5 where r5:
    "provisioning E c (r + td_mul (n - r) (of_nat i / of_int m) + td_days d)
       [Suc 0..<nat (last_prov + 1)] b p4 = (provs, b1, p5)"
    by (metis prod_cases3)
  have s5: "purchased_sum provs = 0" "provisioned_sum provs = last_prov"
    using provisioning_sums' [OF r5] lp by simp_all
  show ?case
    using Cons.IH [of b1 p5] s5 lp pl
    by (simp add: Let_def split_beta r1 r2 r3 r4 r5)
qed

lemma build_company_events_sums:
  "provisioned_sum (fst (build_company_events E c r p))
     \<le> purchased_sum (fst (build_company_events E c r p))"
proof -
  obtain ip p1 where r1: "randint E 1 15 p = (ip, p1)" by (meson surj_pair)
  have ipl: "1 \<le> ip" using randint_range [OF r1] by simp
  obtain d p2 where r2: "randint E 2 14 p1 = (d, p2)" by (meson surj_pair)
  obtain iv p3 where r3: "randint E 1 ip p2 = (iv, p3)" by (meson surj_pair)
  have iv: "iv \<le> ip" "1 \<le> iv"
    using randint_range [OF r3] ipl by simp_all
  obtain provs p4 where r4:
    "initial_provisioning E c (r + td_days d) [0..<nat iv] p3 = (provs, p4)"
    by (meson surj_pair)
  have s4: "purchased_sum provs = 0" "provisioned_sum provs = iv"
    using initial_provisioning_sums' [OF r4] iv by simp_all
  show ?thesis
    using s4 iv additional_purchases_sums [of E c r _ _ iv]
    by (simp add: build_company_events_def Let_def split_beta r1 r2 r3 r4 add_mono)
qed

subsection \<open>The ticket and call generators return\<close>

lemma ticket_count_total:
  "\<exists>tickets seconds q. ticket_count E u p = Inr (tickets, seconds, q)"
proof -
  obtain n p1 where r1: "now E p = (n, p1)" by (meson surj_pair)
  obtain t p2 where r2: "randint E 0 3 p1 = (t, p2)" by (meson surj_pair)
  have "t \<le> 3" using randint_range [OF r2] by simp
  then have "(of_int (4 - t) :: rat) \<noteq> 0" by simp
  then show ?thesis
    by (simp add: ticket_count_def r1 r2 truediv_def Let_def)
qed

lemma ticket_loop_total:
  "tickets \<noteq> 0 \<or> ts = [] \<Longrightarrow>
     \<exists>evs p'. ticket_loop E u s tickets ts p = Inr (evs, p') \<and> length evs = length ts"
proof (induction ts arbitrary: p)
  case Nil
  show ?case by simp
next
  case (Cons t ts)
  then have nz: "tickets \<noteq> 0" by simp
  obtain d p1 where r1: "choice E drivers p = (d, p1)" by (meson surj_pair)
  obtain evs p' where ih: "ticket_loop E u s tickets ts p1 = Inr (evs, p')" "length evs = length ts"
    using Cons.IH [of p1] nz by auto
  show ?case using nz ih by (simp add: truediv_def r1 Let_def)
qed

lemma ticket_events_for_total:
  "ticket_count E u p = Inr (tickets, s, q) \<Longrightarrow>
     \<exists>evs p'. ticket_events_for E u p = Inr (evs, p') \<and> length evs = nat tickets"
proof -
  assume c: "ticket_count E u p = Inr (tickets, s, q)"
  have "tickets \<noteq> 0 \<or> [0..<nat tickets] = []" by auto
  from ticket_loop_total [OF this, of E u s q] show ?thesis
    by (simp add: ticket_events_for_def c)
qed

lemma generate_ticket_events_total:
  "\<exists>evs p'. generate_ticket_events E users p = Inr (evs, p')"
proof (induction users arbitrary: p)
  case Nil
  show ?case by simp
next
  case (Cons u us)
  obtain tickets s q where c: "ticket_count E u p = Inr (tickets, s, q)"
    using ticket_count_total by blast
  obtain evs p1 where e: "ticket_events_for E u p = Inr (evs, p1)"
    using ticket_events_for_total [OF c] by blast
  obtain rest p2 where r: "generate_ticket_events E us p1 = Inr (rest, p2)"
    using Cons.IH by blast
  show ?case by (simp add: e r)
qed

lemma call_count_total:
  "\<exists>os seconds calls q. call_count E u p = Inr (os, seconds, calls, q)"
proof -
  obtain os p1 where r0: "choice E operating_systems p = (os, p1)" by (meson surj_pair)
  obtain n p2 where r1: "now E p1 = (n, p2)" by (meson surj_pair)
  obtain f p3 where r2: "randint E 1 10 p2 = (f, p3)" by (meson surj_pair)
  have "f \<le> 10" using randint_range [OF r2] by simp
  then have "(of_int (11 - f) :: rat) \<noteq> 0" by simp
  then show ?thesis
    by (simp add: call_count_def r0 r1 r2 truediv_def Let_def)
qed

lemma call_emit_total:
  "calls \<noteq> 0 \<Longrightarrow>
     \<exists>ts x p'. call_emit E u os s calls call num d p9 = Inr (call_group u os d ts (x, call), p')"
  by (auto simp add: call_emit_def truediv_def Let_def split_beta)

lemma call_step_total:
  "calls \<noteq> 0 \<Longrightarrow>
     \<exists>ts x p'. call_step E u os s calls h r c ch call num p
        = Inr (call_group u os (fst (call_draws E h r c ch p)) ts (x, call), p')"
  using call_emit_total [of calls E u os s call num]
  by (simp add: call_step_def split_beta)

lemma call_loop_total:
  "calls \<noteq> 0 \<or> cs = [] \<Longrightarrow>
     \<exists>evs p'. call_loop E u os s calls h r c ch cs num p = Inr (evs, p')
        \<and> call_groups u os cs evs"
proof (induction cs arbitrary: num p)
  case Nil
  show ?case by (simp add: call_groups_Nil)
next
  case (Cons k cs)
  then have nz: "calls \<noteq> 0" by simp
  obtain d ts x p1 where st:
    "call_step E u os s calls h r c ch k (num + 1) p = Inr (call_group u os d ts (x, k), p1)"
    using call_step_total [OF nz, of E u os s h r c ch k "num + 1" p] by blast
  obtain evs p' where ih:
    "call_loop E u os s calls h r c ch cs (num + 1) p1 = Inr (evs, p')" "call_groups u os cs evs"
    using Cons.IH [of "num + 1" p1] nz by auto
  show ?case using ih by (simp add: st call_groups_Cons)
qed

lemma call_events_for_total:
  "call_count E u p = Inr (os, s, calls, q) \<Longrightarrow>
     \<exists>evs p'. call_events_for E u p = Inr (evs, p') \<and> call_groups u os [0..<nat calls] evs"
proof -
  assume c: "call_count E u p = Inr (os, s, calls, q)"
  have "calls \<noteq> 0 \<or> [0..<nat calls] = []" by auto
  from call_loop_total [OF this, of E u os s] show ?thesis
    by (simp add: call_events_for_def c Let_def split_beta)
qed

lemma generate_call_events_total:
  "\<exists>evs p'. generate_call_events E users p = Inr (evs, p')"
proof (induction users arbitrary: p)
  case Nil
  show ?case by simp
next
  case (Cons u us)
  obtain os s calls q where c: "call_count E u p = Inr (os, s, calls, q)"
    using call_count_total by blast
  obtain evs p1 where e: "call_events_for E u p = Inr (evs, p1)"
    using call_events_for_total [OF c] by blast
  obtain rest p2 where r: "generate_call_events E us p1 = Inr (rest, p2)"
    using Cons.IH by blast
  show ?case by (simp add: e r)
qed

lemma call_group_calls:
  "filter (\<lambda>e. ue_type e = ''call'') (call_group u os d ts sid) = [hd (call_group u os d ts sid)]"
  by (simp add: call_group_def blank_event_def Let_def)

lemma call_groups_count:
  "call_groups u os cs evs \<Longrightarrow> length (filter (\<lambda>e. ue_type e = ''call'') evs) = length cs"
  by (induction rule: call_groups.induct) (simp_all add: call_group_calls)

lemma call_group_length:
  "2 \<le> length (call_group u os d ts sid) \<and> length (call_group u os d ts sid) \<le> 5"
  by (simp add: call_group_def Let_def)

lemma call_groups_length:
  "call_groups u os cs evs \<Longrightarrow> 2 * length cs \<le> length evs \<and> length evs \<le> 5 * length cs"
proof (induction rule: call_groups.induct)
  case (call_groups_Nil u os)
  show ?case by simp
next
  case (call_groups_Cons u os cs evs c d ts x)
  then show ?case using call_group_length [of u os d ts "(x, c)"] by simp
qed

text \<open>
  C10. For every user and every outcome of the random draws the ticket and the call
  generator return events and raise no \<open>ZeroDivisionError\<close>: the divisor
  \<open>4 - troubley\<close> is at least 1, the divisor \<open>11 - freq\<close> is at least 1, and the
  divisions by the number of tickets and of calls are inside the loops over those
  numbers. The generator of one user emits as many ticket events as \<open>tickets\<close> says,
  and one call event (with one to four further events) for each of the \<open>calls\<close>
  calls, so none when the number is zero or less. The generators of all users
  return as well.
\<close>

theorem ticket_and_call_generators_total:
  "1 \<le> 4 - fst (randint E 0 3 p1) \<and> 1 \<le> 11 - fst (randint E 1 10 p2)
   \<and> (\<exists>tickets s q evs p'.
         ticket_count E u p = Inr (tickets, s, q)
         \<and> ticket_events_for E u p = Inr (evs, p')
         \<and> length evs = nat tickets)
   \<and> (\<exists>os s calls q evs p'.
         call_count E u p = Inr (os, s, calls, q)
         \<and> call_events_for E u p = Inr (evs, p')
         \<and> length (filter (\<lambda>e. ue_type e = ''call'') evs) = nat calls
         \<and> 2 * nat calls \<le> length evs \<and> length evs \<le> 5 * nat calls)
   \<and> (\<exists>evs p'. generate_ticket_events E users p = Inr (evs, p'))
   \<and> (\<exists>evs p'. generate_call_events E users p = Inr (evs, p'))"
proof -
  have d1: "1 \<le> 4 - fst (randint E 0 3 p1)"
    using randint_upper [of 0 3 E p1] by simp
  have d2: "1 \<le> 11 - fst (randint E 1 10 p2)"
    using randint_upper [of 1 10 E p2] by simp
  obtain tickets s q where tc: "ticket_count E u p = Inr (tickets, s, q)"
    using ticket_count_total by blast
  obtain tevs tp where te:
    "ticket_events_for E u p = Inr (tevs, tp)" "length tevs = nat tickets"
    using ticket_events_for_total [OF tc] by blast
  obtain os s' calls q' where cc: "call_count E u p = Inr (os, s', calls, q')"
    using call_count_total by blast
  obtain cevs cp where ce:
    "call_events_for E u p = Inr (cevs, cp)" "call_groups u os [0..<nat calls] cevs"
    using call_events_for_total [OF cc] by blast
  have n: "length (filter (\<lambda>e. ue_type e = ''call'') cevs) = nat calls"
    using call_groups_count [OF ce(2)] by simp
  have l: "2 * nat calls \<le> length cevs \<and> length cevs \<le> 5 * nat calls"
    using call_groups_length [OF ce(2)] by simp
  have t: "\<exists>tickets s q evs p'.
         ticket_count E u p = Inr (tickets, s, q)
         \<and> ticket_events_for E u p = Inr (evs, p')
         \<and> length evs = nat tickets"
    using tc te by blast
  have c: "\<exists>os s calls q evs p'.
         call_count E u p = Inr (os, s, calls, q)
         \<and> call_events_for E u p = Inr (evs, p')
         \<and> length (filter (\<lambda>e. ue_type e = ''call'') evs) = nat calls
         \<and> 2 * nat calls \<le> length evs \<and> length evs \<le> 5 * nat calls"
    using cc ce(1) n l by blast
  show ?thesis
    using d1 d2 t c generate_ticket_events_total [of E users p]
      generate_call_events_total [of E users p]
    by blast
qed

subsection \<open>The order of the dates\<close>

lemma round_half_even_mono: "x \<le> y \<Longrightarrow> round_half_even x \<le> round_half_even y"
proof -
  assume xy: "x \<le> y"
  have fl: "\<lfloor>x\<rfloor> \<le> \<lfloor>y\<rfloor>" using xy by (rule floor_mono)
  show ?thesis
  proof (cases "\<lfloor>x\<rfloor> = \<lfloor>y\<rfloor>")
    case True
    then show ?thesis
      unfolding round_half_even_def Let_def using xy by (auto split: if_splits)
  next
    case False
    then have lt: "\<lfloor>x\<rfloor> + 1 \<le> \<lfloor>y\<rfloor>" using fl by linarith
    have a: "round_half_even x \<le> \<lfloor>x\<rfloor> + 1"
      unfolding round_half_even_def Let_def by (auto split: if_splits)
    have b: "\<lfloor>y\<rfloor> \<le> round_half_even y"
      unfolding round_half_even_def Let_def by (auto split: if_splits)
    show ?thesis using a b lt by linarith
  qed
qed

lemma round_half_even_zero [simp]: "round_half_even 0 = 0"
  by (simp add: round_half_even_def)

lemma td_mul_mono:
  "0 \<le> d \<Longrightarrow> d \<le> d' \<Longrightarrow> 0 \<le> x \<Longrightarrow> x \<le> y \<Longrightarrow> td_mul d x \<le> td_mul d' y"
proof -
  assume a: "0 \<le> d" "d \<le> d'" "0 \<le> x" "x \<le> y"
  have "(of_int d :: rat) * x \<le> of_int d' * y"
    using a by (intro mult_mono) simp_all
  then show ?thesis unfolding td_mul_def by (rule round_half_even_mono)
qed

lemma td_mul_zero [simp]: "td_mul d 0 = 0"
  by (simp add: td_mul_def)

lemma purchase_dates_simps [simp]:
  "purchase_dates [] = []"
  "purchase_dates (xs @ ys) = purchase_dates xs @ purchase_dates ys"
  "purchase_dates (pur_event t c n # xs) = t # purchase_dates xs"
  "purchase_dates (prov_event t c s b # xs) = purchase_dates xs"
  by (simp_all add: purchase_dates_def pur_event_def prov_event_def)

lemma randint_clock [simp]: "snd (snd (randint E a b p)) = snd p"
  by (simp add: randint_def)

lemma now_clock [simp]: "snd (snd (now E p)) = Suc (snd p)" "fst (now E p) = clk E (snd p)"
  by (simp_all add: now_def)

lemma initial_provisioning_purchase_dates [simp]:
  "purchase_dates (fst (initial_provisioning E c d ds p)) = []"
  by (induction ds arbitrary: p) (simp_all add: Let_def split_beta)

lemma initial_provisioning_clock [simp]:
  "snd (snd (initial_provisioning E c d ds p)) = snd p"
  by (induction ds arbitrary: p) (simp_all add: Let_def split_beta)

lemma provisioning_purchase_dates [simp]:
  "purchase_dates (fst (provisioning E c d ds b p)) = []"
  by (induction ds arbitrary: b p) (simp_all add: Let_def split_beta)

lemma provisioning_clock [simp]:
  "snd (snd (snd (provisioning E c d ds b p))) = snd p"
  by (induction ds arbitrary: b p) (simp_all add: Let_def split_beta)

lemma additional_purchases_sorted:
  assumes mono: "\<And>i j. i \<le> j \<Longrightarrow> clk E i \<le> clk E j"
    and reg: "\<And>i. r \<le> clk E i"
    and m: "0 < m"
  shows "sorted ps \<Longrightarrow>
     sorted (purchase_dates (fst (additional_purchases E c r m ps b p)))
     \<and> (\<forall>t \<in> set (purchase_dates (fst (additional_purchases E c r m ps b p))).
          \<forall>j. (\<forall>i \<in> set ps. j \<le> i) \<longrightarrow>
             r + td_mul (clk E (snd p) - r) (of_nat j / of_int m) \<le> t)"
proof (induction ps arbitrary: b p)
  case Nil
  show ?case by simp
next
  case (Cons i ps)
  let ?p1 = "snd (randint E 5 15 p)"
  let ?n = "clk E (snd p)"
  let ?t = "r + td_mul (?n - r) (of_nat i / of_int m)"
  let ?p2 = "snd (now E ?p1)"
  let ?d = "fst (randint E 2 14 ?p2)"
  let ?p3 = "snd (randint E 2 14 ?p2)"
  let ?purchased = "fst (randint E 5 15 p)"
  let ?lp = "fst (randint E (?purchased div 2) ?purchased ?p3)"
  let ?p4 = "snd (randint E (?purchased div 2) ?purchased ?p3)"
  let ?pv = "provisioning E c (?t + td_days ?d) [1..<nat (?lp + 1)] b ?p4"
  let ?b1 = "fst (snd ?pv)"
  let ?p5 = "snd (snd ?pv)"
  let ?rest = "fst (additional_purchases E c r m ps ?b1 ?p5)"
  have unfold: "purchase_dates (fst (additional_purchases E c r m (i # ps) b p)) = ?t # purchase_dates ?rest"
    by (simp add: Let_def split_beta)
  have clk5: "snd ?p5 = Suc (snd p)" by simp
  have sp: "sorted ps" and ile: "\<forall>k \<in> set ps. i \<le> k" using Cons.prems by simp_all
  have ih: "sorted (purchase_dates ?rest)"
    "\<forall>t \<in> set (purchase_dates ?rest). \<forall>j. (\<forall>k \<in> set ps. j \<le> k) \<longrightarrow>
        r + td_mul (clk E (Suc (snd p)) - r) (of_nat j / of_int m) \<le> t"
    using Cons.IH [OF sp, of ?b1 ?p5] clk5 by simp_all
  have step: "\<And>j. j \<le> i \<Longrightarrow>
      r + td_mul (?n - r) (of_nat j / of_int m) \<le> ?t"
  proof -
    fix j :: nat assume "j \<le> i"
    then have "(of_nat j :: rat) / of_int m \<le> of_nat i / of_int m"
      using m by (simp add: divide_right_mono)
    moreover have "(0 :: rat) \<le> of_nat j / of_int m" using m by simp
    moreover have "0 \<le> ?n - r" using reg [of "snd p"] by simp
    ultimately show "r + td_mul (?n - r) (of_nat j / of_int m) \<le> ?t"
      using td_mul_mono [of "?n - r" "?n - r"] by simp
  qed
  have later: "\<And>t. t \<in> set (purchase_dates ?rest) \<Longrightarrow> ?t \<le> t"
  proof -
    fix t assume t: "t \<in> set (purchase_dates ?rest)"
    have a: "r + td_mul (clk E (Suc (snd p)) - r) (of_nat i / of_int m) \<le> t"
      using ih(2) t ile by blast
    have "(0 :: rat) \<le> of_nat i / of_int m" using m by simp
    moreover have "0 \<le> ?n - r" using reg [of "snd p"] by simp
    moreover have "?n - r \<le> clk E (Suc (snd p)) - r" using mono [of "snd p" "Suc (snd p)"] by simp
    ultimately have "td_mul (?n - r) (of_nat i / of_int m)
        \<le> td_mul (clk E (Suc (snd p)) - r) (of_nat i / of_int m)"
      using td_mul_mono by blast
    then show "?t \<le> t" using a by linarith
  qed
  have s: "sorted (?t # purchase_dates ?rest)" using ih(1) later by simp
  have bound: "\<forall>t \<in> set (?t # purchase_dates ?rest). \<forall>j. (\<forall>k \<in> set (i # ps). j \<le> k) \<longrightarrow>
        r + td_mul (?n - r) (of_nat j / of_int m) \<le> t"
  proof (intro ballI allI impI)
    fix t j assume t: "t \<in> set (?t # purchase_dates ?rest)" and j: "\<forall>k \<in> set (i # ps). j \<le> k"
    have ji: "j \<le> i" using j by simp
    show "r + td_mul (?n - r) (of_nat j / of_int m) \<le> t"
    proof (cases "t = ?t")
      case True
      then show ?thesis using step [OF ji] by simp
    next
      case False
      then have "t \<in> set (purchase_dates ?rest)" using t by simp
      then show ?thesis using later step [OF ji] by force
    qed
  qed
  show ?case using s bound unfold by simp
qed


lemma build_company_events_purchase_dates:
  "purchase_dates (fst (build_company_events E c r p)) =
     r # purchase_dates (fst (additional_purchases E c r
        (fst (randint E 1 2 (snd (now E (snd (initial_provisioning E c
            (r + td_days (fst (randint E 2 14 (snd (randint E 1 15 p)))))
            [0..<nat (fst (randint E 1 (fst (randint E 1 15 p))
                (snd (randint E 2 14 (snd (randint E 1 15 p))))))]
            (snd (randint E 1 (fst (randint E 1 15 p))
                (snd (randint E 2 14 (snd (randint E 1 15 p)))))))))))
          * (py_int (of_int (py_int (total_seconds (clk E (snd p) - r) / 86400)) / 30) + 1))
        [1..<nat (fst (randint E 1 2 (snd (now E (snd (initial_provisioning E c
            (r + td_days (fst (randint E 2 14 (snd (randint E 1 15 p)))))
            [0..<nat (fst (randint E 1 (fst (randint E 1 15 p))
                (snd (randint E 2 14 (snd (randint E 1 15 p))))))]
            (snd (randint E 1 (fst (randint E 1 15 p))
                (snd (randint E 2 14 (snd (randint E 1 15 p)))))))))))
          * (py_int (of_int (py_int (total_seconds (clk E (snd p) - r) / 86400)) / 30) + 1))]
        (fst (randint E 1 (fst (randint E 1 15 p))
                (snd (randint E 2 14 (snd (randint E 1 15 p))))))
        (snd (randint E 1 2 (snd (now E (snd (initial_provisioning E c
            (r + td_days (fst (randint E 2 14 (snd (randint E 1 15 p)))))
            [0..<nat (fst (randint E 1 (fst (randint E 1 15 p))
                (snd (randint E 2 14 (snd (randint E 1 15 p))))))]
            (snd (randint E 1 (fst (randint E 1 15 p))
                (snd (randint E 2 14 (snd (randint E 1 15 p))))))))))))))"
  by (simp add: build_company_events_def Let_def split_beta)

lemma build_company_events_purchase_dates':
  "\<exists>m b q. purchase_dates (fst (build_company_events E c r p)) =
     r # purchase_dates (fst (additional_purchases E c r m [1..<nat m] b q))"
  using build_company_events_purchase_dates by blast

lemma purchase_dates_sorted_aux:
  assumes mono: "\<And>i j. i \<le> j \<Longrightarrow> clk E i \<le> clk E j"
    and reg: "\<And>i. r \<le> clk E i"
  shows "sorted (purchase_dates (fst (build_company_events E c r p)))"
proof -
  obtain m b q where e: "purchase_dates (fst (build_company_events E c r p)) =
     r # purchase_dates (fst (additional_purchases E c r m [1..<nat m] b q))"
    using build_company_events_purchase_dates' by blast
  show ?thesis
  proof (cases "0 < m")
    case True
    have s: "sorted [1..<nat m]" by simp
    have a: "sorted (purchase_dates (fst (additional_purchases E c r m [1..<nat m] b q)))"
      and b: "\<forall>t \<in> set (purchase_dates (fst (additional_purchases E c r m [1..<nat m] b q))).
          \<forall>j. (\<forall>i \<in> set [1..<nat m]. j \<le> i) \<longrightarrow>
             r + td_mul (clk E (snd q) - r) (of_nat j / of_int m) \<le> t"
      using additional_purchases_sorted [OF mono reg True s, of c b q] by simp_all
    have "\<forall>t \<in> set (purchase_dates (fst (additional_purchases E c r m [1..<nat m] b q))). r \<le> t"
    proof
      fix t assume "t \<in> set (purchase_dates (fst (additional_purchases E c r m [1..<nat m] b q)))"
      then have "r + td_mul (clk E (snd q) - r) (of_nat 0 / of_int m) \<le> t"
        using b by blast
      then show "r \<le> t" by simp
    qed
    then show ?thesis using a e by simp
  next
    case False
    then have z: "[Suc 0..<nat m] = []" by simp
    show ?thesis using e by (simp add: z)
  qed
qed

lemma py_int_nonneg: "0 \<le> x \<Longrightarrow> 0 \<le> py_int x"
  by (simp add: py_int_def)

lemma py_int_pos_imp: "0 < py_int x \<Longrightarrow> 0 < x"
  by (auto simp add: py_int_def split: if_splits)

lemma ticket_loop_dates:
  "ticket_loop E u s tickets ts p = Inr (evs, p') \<Longrightarrow>
     map ue_timestamp evs =
       map (\<lambda>t. u_reg_date u + td_seconds (py_int (s / of_int tickets / (11 / 10)) * int t)) ts"
proof (induction ts arbitrary: p evs)
  case Nil
  then show ?case by simp
next
  case (Cons t ts)
  have nz: "tickets \<noteq> 0"
    using Cons.prems by (auto simp add: truediv_def split: if_splits)
  obtain rest where r: "ticket_loop E u s tickets ts (snd (choice E drivers p)) = Inr (rest, p')"
    and e: "evs = (blank_event
              (u_reg_date u + td_seconds (py_int (s / of_int tickets / (11 / 10)) * int t))
              ''support_ticket'' u)
             \<lparr>ue_ticket_number := Some (u_email u @ ''-'' @ str_int (int t)),
              ue_ticket_driver := Some (fst (choice E drivers p))\<rparr> # rest"
    using Cons.prems nz
    by (auto simp add: truediv_def Let_def split_beta split: sum.splits)
  show ?case using Cons.IH [OF r] e by (simp add: blank_event_def)
qed

lemma ticket_dates_sorted:
  assumes "ticket_events_for E u p = Inr (evs, p')"
  shows "sorted (u_reg_date u # map ue_timestamp evs)"
proof -
  obtain tickets s q where c: "ticket_count E u p = Inr (tickets, s, q)"
    and l: "ticket_loop E u s tickets [0..<nat tickets] q = Inr (evs, p')"
    using assms by (auto simp add: ticket_events_for_def split: sum.splits)
  let ?k = "py_int (s / of_int tickets / (11 / 10))"
  have d: "map ue_timestamp evs = map (\<lambda>t. u_reg_date u + td_seconds (?k * int t)) [0..<nat tickets]"
    using ticket_loop_dates [OF l] .
  show ?thesis
  proof (cases "0 < tickets")
    case False
    then show ?thesis using d by simp
  next
    case True
    have s: "0 < s"
    proof -
      obtain t where tk: "tickets = py_int (of_int (py_int (s / 86400)) / of_int (4 - t) / 2)"
        and t3: "t \<le> 3"
        using c randint_upper [of 0 3 E "snd (now E p)"]
        by (auto simp add: ticket_count_def Let_def split_beta truediv_def split: if_splits)
      have "0 < (of_int (py_int (s / 86400)) :: rat) / of_int (4 - t) / 2"
        using True tk py_int_pos_imp by blast
      then have "0 < (of_int (py_int (s / 86400)) :: rat)"
        using t3 by (simp add: zero_less_divide_iff)
      then have "0 < py_int (s / 86400)" by simp
      then have "0 < s / 86400" by (rule py_int_pos_imp)
      then show ?thesis by simp
    qed
    have k: "0 \<le> ?k"
      using s True by (intro py_int_nonneg) simp
    have "sorted (map (\<lambda>t. u_reg_date u + td_seconds (?k * int t)) [0..<nat tickets])"
      using k by (intro sorted_map_mono) (auto simp add: td_seconds_def mult_left_mono monotone_on_def)
    moreover have "\<forall>x \<in> set (map (\<lambda>t. u_reg_date u + td_seconds (?k * int t)) [0..<nat tickets]).
        u_reg_date u \<le> x"
      using k by (auto simp add: td_seconds_def)
    ultimately show ?thesis using d by simp
  qed
qed

text \<open>
  C2, as the claim states it, fails. In \<open>cx_env\<close> a company registered 10 days ago
  buys at registration, provisions 14 days later and buys again 5 days after
  registration: the dates of its events, in the order they are generated, go back.
  In \<open>zero_env\<close> a user registered 2 days ago makes two calls, and each load event
  follows its call event in the list with a date one minute earlier.
\<close>

theorem event_dates_not_sorted:
  "map ce_timestamp (fst (build_company_events cx_env ''Acme'' cx_reg (0, 0))) =
     [1699136000000000, 1700345600000000, 1699568000000000, 1699740800000000,
      1699740800000000]
   \<and> \<not> sorted (map ce_timestamp (fst (build_company_events cx_env ''Acme'' cx_reg (0, 0))))
   \<and> \<not> isl (call_events_for zero_env cx_user (0, 0))
   \<and> map ue_timestamp (fst (projr (call_events_for zero_env cx_user (0, 0)))) =
     [1699912600000000, 1699912540000000, 1699912600000000, 1699912600000000,
      1699998000000000, 1699997940000000, 1699998000000000, 1699998000000000]
   \<and> \<not> sorted (map ue_timestamp (fst (projr (call_events_for zero_env cx_user (0, 0)))))"
proof -
  have a: "map ce_timestamp (fst (build_company_events cx_env ''Acme'' cx_reg (0, 0))) =
     [1699136000000000, 1700345600000000, 1699568000000000, 1699740800000000,
      1699740800000000]"
    by code_simp
  have b: "\<not> isl (call_events_for zero_env cx_user (0, 0))"
    by code_simp
  have c: "map ue_timestamp (fst (projr (call_events_for zero_env cx_user (0, 0)))) =
     [1699912600000000, 1699912540000000, 1699912600000000, 1699912600000000,
      1699998000000000, 1699997940000000, 1699998000000000, 1699998000000000]"
    by code_simp
  show ?thesis by (simp add: a b c)
qed

text \<open>
  C2, amended. For every company whose registration date is not later than any
  reading of the clock, and a clock that does not go back, the dates of the
  purchased events are non-decreasing in the order the events are generated. For
  every user, the registration date and the dates of the support ticket events are
  non-decreasing in the order the events are generated. (Provisioned events are dated
  2 to 14 days after their purchase, load events one minute before their call, and
  call dates carry a random shift: the claim does not extend to them.)
\<close>

theorem purchase_and_ticket_dates_sorted:
  "((\<forall>i j. i \<le> j \<longrightarrow> clk E i \<le> clk E j) \<and> (\<forall>i. r \<le> clk E i)
      \<longrightarrow> sorted (purchase_dates (fst (build_company_events E c r p))))
   \<and> (ticket_events_for E' u q = Inr (evs, q')
      \<longrightarrow> sorted (u_reg_date u # map ue_timestamp evs))"
  using purchase_dates_sorted_aux [of E r c p] ticket_dates_sorted [of E' u q evs q']
  by blast

theorem purchase_and_ticket_dates_sorted_witness:
  "purchase_dates (fst (build_company_events cx_env ''Acme'' cx_reg (0, 0))) =
     [1699136000000000, 1699568000000000]
   \<and> sorted (purchase_dates (fst (build_company_events cx_env ''Acme'' cx_reg (0, 0))))
   \<and> u_reg_date cx_user20 # map ue_timestamp (fst (projr (ticket_events_for zero_env cx_user20 (0, 0))))
       = [1698272000000000, 1698272000000000, 1699057454000000]
   \<and> sorted (u_reg_date cx_user20
        # map ue_timestamp (fst (projr (ticket_events_for zero_env cx_user20 (0, 0)))))"
proof -
  have m: "\<forall>i j. i \<le> j \<longrightarrow> clk cx_env i \<le> clk cx_env j"
    by (simp add: cx_env_def)
  have g: "\<forall>i. cx_reg \<le> clk cx_env i"
    by (simp add: cx_env_def cx_reg_def td_days_def)
  have e: "ticket_events_for zero_env cx_user20 (0, 0) =
      Inr (fst (projr (ticket_events_for zero_env cx_user20 (0, 0))),
           snd (projr (ticket_events_for zero_env cx_user20 (0, 0))))"
    by code_simp
  have a: "purchase_dates (fst (build_company_events cx_env ''Acme'' cx_reg (0, 0))) =
     [1699136000000000, 1699568000000000]"
    by code_simp
  have b: "u_reg_date cx_user20
      # map ue_timestamp (fst (projr (ticket_events_for zero_env cx_user20 (0, 0))))
       = [1698272000000000, 1698272000000000, 1699057454000000]"
    by code_simp
  show ?thesis
    using purchase_and_ticket_dates_sorted
      [of cx_env cx_reg "''Acme''" "(0, 0)" zero_env cx_user20 "(0, 0)"
          "fst (projr (ticket_events_for zero_env cx_user20 (0, 0)))"
          "snd (projr (ticket_events_for zero_env cx_user20 (0, 0)))"]
      m g e a b
    by blast
qed

subsection \<open>The events derived from a call\<close>

lemma call_group_shape:
  "\<exists>cev lev subs. call_group u os d ts sid = cev # lev # subs
     \<and> ue_type cev = ''call'' \<and> ue_session_id cev = Some sid \<and> ue_timestamp cev = ts
     \<and> ue_type lev = ''load'' \<and> ue_session_id lev = None
     \<and> ue_timestamp lev = ts - td_minutes 1
     \<and> (\<forall>e \<in> set subs. ue_timestamp e = ts
           \<and> ((ue_type e = ''rating'' \<or> ue_type e = ''comment'') \<and> ue_session_id e = Some sid
               \<or> ue_type e = ''dialin'' \<and> ue_session_id e = None))"
  by (auto simp add: call_group_def blank_event_def Let_def)

lemma parent_call_group_head:
  assumes g: "g = cev # lev # subs" "ue_type cev = ''call''" "ue_type lev = ''load''"
    "\<forall>e \<in> set subs. ue_type e \<noteq> ''call''"
    and i: "0 < i" "i \<le> length g"
  shows "parent_call (g @ rest) i = Some cev"
proof -
  have "take i (g @ rest) = take i g" using i by simp
  then have t: "take i (g @ rest) = cev # take (i - 1) (lev # subs)"
    using g(1) i by (cases i) simp_all
  have "\<forall>e \<in> set (lev # subs). ue_type e \<noteq> ''call''"
    using g(3,4) by simp
  then have "\<forall>e \<in> set (take (i - 1) (lev # subs)). ue_type e \<noteq> ''call''"
    by (meson in_set_takeD)
  then have "filter (\<lambda>e. ue_type e = ''call'') (take (i - 1) (lev # subs)) = []"
    by (simp add: filter_empty_conv)
  then show ?thesis using t g(2) by (simp add: parent_call_def)
qed

lemma parent_call_later:
  assumes "parent_call rest j = Some c"
  shows "parent_call (g @ rest) (length g + j) = Some c"
proof -
  obtain x xs where f: "filter (\<lambda>e. ue_type e = ''call'') (take j rest) = x # xs"
    and c: "c = last (x # xs)"
    using assms by (auto simp add: parent_call_def split: list.splits)
  have "filter (\<lambda>e. ue_type e = ''call'') (take (length g + j) (g @ rest))
      = filter (\<lambda>e. ue_type e = ''call'') g @ (x # xs)"
    using f by simp
  then show ?thesis using c
    by (cases "filter (\<lambda>e. ue_type e = ''call'') g") (simp_all add: parent_call_def)
qed

lemma call_groups_links:
  "call_groups u os cs evs \<Longrightarrow> distinct cs \<Longrightarrow>
     (\<forall>e \<in> set evs. \<forall>x k. ue_session_id e = Some (x, k) \<longrightarrow> k \<in> set cs)
   \<and> (\<forall>i < length evs. is_sub (evs ! i) \<longrightarrow>
         (\<exists>c. parent_call evs i = Some c \<and> linked evs (evs ! i) c))"
proof (induction rule: call_groups.induct)
  case (call_groups_Nil u os)
  show ?case by simp
next
  case (call_groups_Cons u os cs evs k d ts x)
  let ?g = "call_group u os d ts (x, k)"
  obtain cev lev subs where g: "?g = cev # lev # subs"
    and cev: "ue_type cev = ''call''" "ue_session_id cev = Some (x, k)" "ue_timestamp cev = ts"
    and lev: "ue_type lev = ''load''" "ue_session_id lev = None"
      "ue_timestamp lev = ts - td_minutes 1"
    and subs: "\<forall>e \<in> set subs. ue_timestamp e = ts
           \<and> ((ue_type e = ''rating'' \<or> ue_type e = ''comment'') \<and> ue_session_id e = Some (x, k)
               \<or> ue_type e = ''dialin'' \<and> ue_session_id e = None)"
    using call_group_shape [of u os d ts "(x, k)"] by blast
  have k: "k \<notin> set cs" and dc: "distinct cs" using call_groups_Cons.prems by simp_all
  have ih1: "\<forall>e \<in> set evs. \<forall>x k. ue_session_id e = Some (x, k) \<longrightarrow> k \<in> set cs"
    and ih2: "\<forall>i < length evs. is_sub (evs ! i) \<longrightarrow>
         (\<exists>c. parent_call evs i = Some c \<and> linked evs (evs ! i) c)"
    using call_groups_Cons.IH [OF dc] by simp_all
  have nocall: "\<forall>e \<in> set subs. ue_type e \<noteq> ''call''" using subs by auto
  have gcalls: "\<And>e. ue_session_id e = Some (x, k) \<Longrightarrow> calls_of_session e ?g = [cev]"
    using g cev lev subs nocall by (auto simp add: calls_of_session_def filter_empty_conv)
  have gnone: "\<And>e y j. ue_session_id e = Some (y, j) \<Longrightarrow> j \<noteq> k \<Longrightarrow> calls_of_session e ?g = []"
    using g cev lev subs nocall by (auto simp add: calls_of_session_def filter_empty_conv)
  have restnone: "\<And>e. ue_session_id e = Some (x, k) \<Longrightarrow> calls_of_session e evs = []"
    using ih1 k by (auto simp add: calls_of_session_def filter_empty_conv)
  have app: "\<And>e. calls_of_session e (?g @ evs) = calls_of_session e ?g @ calls_of_session e evs"
    by (simp add: calls_of_session_def)
  have part1: "\<forall>e \<in> set (?g @ evs). \<forall>y j. ue_session_id e = Some (y, j) \<longrightarrow> j \<in> set (k # cs)"
    using g cev lev subs ih1 by auto
  have part2: "\<forall>i < length (?g @ evs). is_sub ((?g @ evs) ! i) \<longrightarrow>
         (\<exists>c. parent_call (?g @ evs) i = Some c \<and> linked (?g @ evs) ((?g @ evs) ! i) c)"
  proof (intro allI impI)
    fix i assume i: "i < length (?g @ evs)" and s: "is_sub ((?g @ evs) ! i)"
    show "\<exists>c. parent_call (?g @ evs) i = Some c \<and> linked (?g @ evs) ((?g @ evs) ! i) c"
    proof (cases "i < length ?g")
      case True
      then have e: "(?g @ evs) ! i = ?g ! i" by (simp add: nth_append)
      have i0: "0 < i" using s e g cev by (cases i) (auto simp add: is_sub_def)
      have pc: "parent_call (?g @ evs) i = Some cev"
        using parent_call_group_head [OF g cev(1) lev(1) nocall i0] True by simp
      have "linked (?g @ evs) (?g ! i) cev"
      proof (cases "i = 1")
        case True
        then have "?g ! i = lev" using g by simp
        then show ?thesis using cev lev by (simp add: linked_def)
      next
        case False
        then obtain j where j: "i = Suc (Suc j)" using i0 by (cases i; cases "i - 1") auto
        then have "?g ! i = subs ! j" and "j < length subs" using g True by simp_all
        then have m: "?g ! i \<in> set subs" by simp
        then show ?thesis
          using subs cev gcalls [of "?g ! i"] restnone [of "?g ! i"] app [of "?g ! i"]
          by (auto simp add: linked_def)
      qed
      then show ?thesis using pc e by simp
    next
      case False
      define j where "j = i - length ?g"
      have ij: "i = length ?g + j" and j: "j < length evs" using False i by (simp_all add: j_def)
      have e: "(?g @ evs) ! i = evs ! j" using ij by (simp add: nth_append)
      obtain c where c: "parent_call evs j = Some c" "linked evs (evs ! j) c"
        using ih2 j s e by auto
      have pc: "parent_call (?g @ evs) i = Some c"
        using parent_call_later [OF c(1), of ?g] ij by simp
      have mem: "evs ! j \<in> set evs" using j by simp
      have "linked (?g @ evs) (evs ! j) c"
      proof (cases "ue_type (evs ! j) = ''rating'' \<or> ue_type (evs ! j) = ''comment''")
        case False
        then show ?thesis using c(2) by (simp add: linked_def)
      next
        case True
        then have cs1: "calls_of_session (evs ! j) evs = [c]"
          and sid: "ue_session_id (evs ! j) = ue_session_id c"
          using c(2) by (simp_all add: linked_def)
        have "c \<in> set (calls_of_session (evs ! j) evs)" using cs1 by simp
        then have cin: "c \<in> set evs" by (simp add: calls_of_session_def)
        have "calls_of_session (evs ! j) ?g = []"
        proof (cases "ue_session_id (evs ! j)")
          case None
          then show ?thesis using g cev lev subs nocall
            by (auto simp add: calls_of_session_def filter_empty_conv)
        next
          case (Some a)
          obtain y m where a: "a = (y, m)" by (cases a)
          have "m \<in> set cs" using ih1 mem Some a by blast
          then have "m \<noteq> k" using k by auto
          then show ?thesis using gnone Some a by blast
        qed
        then show ?thesis using c(2) True app [of "evs ! j"] by (simp add: linked_def)
      qed
      then show ?thesis using pc e by simp
    qed
  qed
  show ?case using part1 part2 by blast
qed

lemma call_draws_gates:
  "(call_rating (fst (call_draws E h r c ch p)) \<noteq> None
      \<longrightarrow> call_rating_score (fst (call_draws E h r c ch p)) \<le> r * 40)
   \<and> (call_comment (fst (call_draws E h r c ch p)) \<noteq> None
      \<longrightarrow> (of_int (call_comment_score (fst (call_draws E h r c ch p))) :: rat)
             \<le> of_int (c * 33 * r) / 3)
   \<and> (dialin_length (fst (call_draws E h r c ch p)) \<noteq> None
      \<longrightarrow> call_dialin_score (fst (call_draws E h r c ch p)) < 40)"
  by (simp add: call_draws_def Let_def split_beta)

lemma call_group_gates:
  "((\<exists>e \<in> set (call_group u os d ts sid). ue_type e = ''rating'') \<longrightarrow> call_rating d \<noteq> None)
   \<and> ((\<exists>e \<in> set (call_group u os d ts sid). ue_type e = ''comment'') \<longrightarrow> call_comment d \<noteq> None)
   \<and> ((\<exists>e \<in> set (call_group u os d ts sid). ue_type e = ''dialin'') \<longrightarrow> dialin_length d \<noteq> None)"
  by (auto simp add: call_group_def blank_event_def Let_def truthy_int_def truthy_str_def
        split: option.splits)

lemma call_step_group:
  "call_step E u os s calls h r c ch call num p = Inr (g, p') \<Longrightarrow>
     \<exists>ts sid. g = call_group u os (fst (call_draws E h r c ch p)) ts sid"
  by (auto simp add: call_step_def call_emit_def Let_def split_beta truediv_def
        split: if_splits)

lemma call_step_gates:
  assumes "call_step E u os s calls h r c ch call num p = Inr (g, p')"
  shows "((\<exists>e \<in> set g. ue_type e = ''rating'')
            \<longrightarrow> call_rating_score (fst (call_draws E h r c ch p)) \<le> r * 40)
   \<and> ((\<exists>e \<in> set g. ue_type e = ''comment'')
            \<longrightarrow> (of_int (call_comment_score (fst (call_draws E h r c ch p))) :: rat)
                  \<le> of_int (c * 33 * r) / 3)
   \<and> ((\<exists>e \<in> set g. ue_type e = ''dialin'')
            \<longrightarrow> call_dialin_score (fst (call_draws E h r c ch p)) < 40)"
proof -
  obtain ts sid where g: "g = call_group u os (fst (call_draws E h r c ch p)) ts sid"
    using call_step_group [OF assms] by blast
  show ?thesis
    using call_group_gates [of u os "fst (call_draws E h r c ch p)" ts sid]
      call_draws_gates [of E h r c ch p] g
    by blast
qed

lemma call_events_for_groups:
  assumes "call_events_for E u p = Inr (evs, p')"
  shows "\<exists>os n. call_groups u os [0..<n] evs"
proof -
  obtain os s calls q where c: "call_count E u p = Inr (os, s, calls, q)"
    using call_count_total by blast
  show ?thesis using call_events_for_total [OF c] assms by auto
qed

lemma call_events_for_links:
  assumes "call_events_for E u p = Inr (evs, p')" "i < length evs" "is_sub (evs ! i)"
  shows "\<exists>c. parent_call evs i = Some c \<and> linked evs (evs ! i) c"
proof -
  obtain os n where g: "call_groups u os [0..<n] evs"
    using call_events_for_groups [OF assms(1)] by blast
  have "distinct [0..<n]" by simp
  from call_groups_links [OF g this] assms(2,3) show ?thesis by blast
qed

text \<open>
  C3, as the claim states it, fails for load and dial-in events: the source sets their
  session identifier to \<open>None\<close>, which no call event carries. In \<open>ones_env\<close> the
  second event of \<open>cx_user\<close> is a load event and the fifth a dial-in event.
\<close>

theorem load_and_dialin_carry_no_session:
  "\<not> isl (call_events_for ones_env cx_user (0, 0))
   \<and> map ue_type cx_calls =
       [''call'', ''load'', ''rating'', ''comment'', ''dialin'',
        ''call'', ''load'', ''rating'', ''comment'', ''dialin'']
   \<and> ue_session_id (cx_calls ! 1) = None
   \<and> calls_of_session (cx_calls ! 1) cx_calls = []
   \<and> ue_session_id (cx_calls ! 4) = None
   \<and> calls_of_session (cx_calls ! 4) cx_calls = []"
  by code_simp

text \<open>
  C3, amended. For every user and every event of type rating, comment, dialin or
  load among the call events of the user, the last call event generated before it
  (its parent call) exists and has the same timestamp, but for a load event, whose
  timestamp is exactly one minute earlier. A rating or comment event carries the
  session identifier of its parent call, and no other call event of the user carries
  it; a load or dial-in event carries no session identifier. In every iteration of
  the loop over the calls, a rating, comment or dial-in event is emitted only when
  the score drawn for it in that iteration passed its threshold.
\<close>

theorem call_sub_events_linked:
  "(call_events_for E u p = Inr (evs, p') \<and> i < length evs
      \<and> (ue_type (evs ! i) = ''rating'' \<or> ue_type (evs ! i) = ''comment''
           \<or> ue_type (evs ! i) = ''dialin'' \<or> ue_type (evs ! i) = ''load'')
    \<longrightarrow> (\<exists>c. parent_call evs i = Some c \<and> ue_type c = ''call''
           \<and> ue_timestamp (evs ! i) =
               (if ue_type (evs ! i) = ''load'' then ue_timestamp c - td_minutes 1
                else ue_timestamp c)
           \<and> (if ue_type (evs ! i) = ''rating'' \<or> ue_type (evs ! i) = ''comment''
               then ue_session_id (evs ! i) = ue_session_id c
                    \<and> calls_of_session (evs ! i) evs = [c]
               else ue_session_id (evs ! i) = None)))
   \<and> (call_step E' u' os s calls h r c ch call num q = Inr (g, q')
    \<longrightarrow> ((\<exists>e \<in> set g. ue_type e = ''rating'')
            \<longrightarrow> call_rating_score (fst (call_draws E' h r c ch q)) \<le> r * 40)
        \<and> ((\<exists>e \<in> set g. ue_type e = ''comment'')
            \<longrightarrow> (of_int (call_comment_score (fst (call_draws E' h r c ch q))) :: rat)
                  \<le> of_int (c * 33 * r) / 3)
        \<and> ((\<exists>e \<in> set g. ue_type e = ''dialin'')
            \<longrightarrow> call_dialin_score (fst (call_draws E' h r c ch q)) < 40))"
proof (intro conjI impI)
  assume a: "call_events_for E u p = Inr (evs, p') \<and> i < length evs
      \<and> (ue_type (evs ! i) = ''rating'' \<or> ue_type (evs ! i) = ''comment''
           \<or> ue_type (evs ! i) = ''dialin'' \<or> ue_type (evs ! i) = ''load'')"
  then have s: "is_sub (evs ! i)" by (simp add: is_sub_def)
  obtain c where "parent_call evs i = Some c" "linked evs (evs ! i) c"
    using call_events_for_links [of E u p evs p' i] a s by blast
  then show "\<exists>c. parent_call evs i = Some c \<and> ue_type c = ''call''
           \<and> ue_timestamp (evs ! i) =
               (if ue_type (evs ! i) = ''load'' then ue_timestamp c - td_minutes 1
                else ue_timestamp c)
           \<and> (if ue_type (evs ! i) = ''rating'' \<or> ue_type (evs ! i) = ''comment''
               then ue_session_id (evs ! i) = ue_session_id c
                    \<and> calls_of_session (evs ! i) evs = [c]
               else ue_session_id (evs ! i) = None)"
    unfolding linked_def by blast
next
  assume "call_step E' u' os s calls h r c ch call num q = Inr (g, q')"
    and "\<exists>e \<in> set g. ue_type e = ''rating''"
  then show "call_rating_score (fst (call_draws E' h r c ch q)) \<le> r * 40"
    using call_step_gates by blast
next
  assume "call_step E' u' os s calls h r c ch call num q = Inr (g, q')"
    and "\<exists>e \<in> set g. ue_type e = ''comment''"
  then show "(of_int (call_comment_score (fst (call_draws E' h r c ch q))) :: rat)
                  \<le> of_int (c * 33 * r) / 3"
    using call_step_gates by blast
next
  assume "call_step E' u' os s calls h r c ch call num q = Inr (g, q')"
    and "\<exists>e \<in> set g. ue_type e = ''dialin''"
  then show "call_dialin_score (fst (call_draws E' h r c ch q)) < 40"
    using call_step_gates by blast
qed

theorem call_sub_events_linked_witness:
  "ue_type (cx_calls ! 2) = ''rating''
   \<and> parent_call cx_calls 2 = Some (cx_calls ! 0)
   \<and> ue_timestamp (cx_calls ! 2) = ue_timestamp (cx_calls ! 0)
   \<and> ue_session_id (cx_calls ! 2) = ue_session_id (cx_calls ! 0)
   \<and> calls_of_session (cx_calls ! 2) cx_calls = [cx_calls ! 0]
   \<and> call_rating_score (fst (call_draws ones_env 1 1 1 1 (6, 1))) \<le> 1 * 40"
proof -
  have run: "call_events_for ones_env cx_user (0, 0)
      = Inr (cx_calls, snd (projr (call_events_for ones_env cx_user (0, 0))))"
    by code_simp
  have len: "2 < length cx_calls" by code_simp
  have ty: "ue_type (cx_calls ! 2) = ''rating''" by code_simp
  have pc: "parent_call cx_calls 2 = Some (cx_calls ! 0)" by code_simp
  have step: "call_step ones_env cx_user ''Windows'' 172800 2 1 1 1 1 0 1 (6, 1)
      = Inr (take 5 cx_calls,
             snd (projr (call_step ones_env cx_user ''Windows'' 172800 2 1 1 1 1 0 1 (6, 1))))"
    by code_simp
  have ex: "\<exists>e \<in> set (take 5 cx_calls). ue_type e = ''rating''" by code_simp
  note t = call_sub_events_linked
    [of ones_env cx_user "(0, 0)" cx_calls
        "snd (projr (call_events_for ones_env cx_user (0, 0)))" 2
        ones_env cx_user "''Windows''" 172800 2 1 1 1 1 0 1 "(6, 1)" "take 5 cx_calls"
        "snd (projr (call_step ones_env cx_user ''Windows'' 172800 2 1 1 1 1 0 1 (6, 1)))"]
  have g: "call_rating_score (fst (call_draws ones_env 1 1 1 1 (6, 1))) \<le> 1 * 40"
    using t step ex by blast
  obtain c where c: "parent_call cx_calls 2 = Some c"
     "ue_timestamp (cx_calls ! 2) = ue_timestamp c"
     "ue_session_id (cx_calls ! 2) = ue_session_id c"
     "calls_of_session (cx_calls ! 2) cx_calls = [c]"
    using t run len ty by auto
  have "c = cx_calls ! 0" using c(1) pc by simp
  then show ?thesis using c ty pc g by simp
qed

subsection \<open>Updating a document found by the value of a field\<close>

lemma field_set_field:
  "field (set_field k v d) k' = (if k' = k then Some v else field d k')"
  by (induction d) (auto simp add: field_def)

lemma field_merge_fields_other:
  "k \<notin> fst ` set patch \<Longrightarrow> field (merge_fields d patch) k = field d k"
proof (induction patch arbitrary: d)
  case Nil
  show ?case by (simp add: merge_fields_def)
next
  case (Cons a patch)
  obtain k' v where a: "a = (k', v)" by (cases a)
  have "field (merge_fields d (a # patch)) k = field (merge_fields (set_field k' v d) patch) k"
    by (simp add: merge_fields_def a)
  also have "\<dots> = field (set_field k' v d) k" using Cons by simp
  also have "\<dots> = field d k" using Cons.prems a by (simp add: field_set_field)
  finally show ?case .
qed

lemma field_merge_fields_patched:
  "distinct (map fst patch) \<Longrightarrow> (k, v) \<in> set patch \<Longrightarrow>
     field (merge_fields d patch) k = Some v"
proof (induction patch arbitrary: d)
  case Nil
  then show ?case by simp
next
  case (Cons a patch)
  obtain k' v' where a: "a = (k', v')" by (cases a)
  have m: "merge_fields d (a # patch) = merge_fields (set_field k' v' d) patch"
    by (simp add: merge_fields_def a)
  show ?case
  proof (cases "(k, v) \<in> set patch")
    case True
    then show ?thesis using Cons m by simp
  next
    case False
    then have e: "k = k'" "v = v'" using Cons.prems a by auto
    have "k \<notin> fst ` set patch" using Cons.prems(1) a e by auto
    then show ?thesis using m e by (simp add: field_merge_fields_other field_set_field)
  qed
qed

lemma update_first_Some:
  "update_first f v patch ds = Some ds' \<Longrightarrow>
     \<exists>pre i d post. ds = pre @ (i, d) # post
        \<and> (\<forall>x \<in> set pre. field (snd x) f \<noteq> Some v)
        \<and> field d f = Some v
        \<and> ds' = pre @ (i, merge_fields d patch) # post"
proof (induction ds arbitrary: ds')
  case Nil
  then show ?case by simp
next
  case (Cons a ds)
  obtain i d where a: "a = (i, d)" by (cases a)
  show ?case
  proof (cases "field d f = Some v")
    case True
    then have "ds' = (i, merge_fields d patch) # ds" using Cons.prems a by simp
    then have "a # ds = [] @ (i, d) # ds \<and> (\<forall>x \<in> set []. field (snd x) f \<noteq> Some v)
        \<and> field d f = Some v \<and> ds' = [] @ (i, merge_fields d patch) # ds"
      using True a by simp
    then show ?thesis by blast
  next
    case False
    then obtain r where r: "update_first f v patch ds = Some r" and d': "ds' = (i, d) # r"
      using Cons.prems a by (auto split: option.splits)
    obtain pre j e post where p: "ds = pre @ (j, e) # post"
        "\<forall>x \<in> set pre. field (snd x) f \<noteq> Some v" "field e f = Some v"
        "r = pre @ (j, merge_fields e patch) # post"
      using Cons.IH [OF r] by blast
    have "a # ds = ((i, d) # pre) @ (j, e) # post
        \<and> (\<forall>x \<in> set ((i, d) # pre). field (snd x) f \<noteq> Some v)
        \<and> field e f = Some v \<and> ds' = ((i, d) # pre) @ (j, merge_fields e patch) # post"
      using p a d' False by simp
    then show ?thesis by blast
  qed
qed

lemma update_first_None:
  "update_first f v patch ds = None \<longleftrightarrow> (\<forall>x \<in> set ds. field (snd x) f \<noteq> Some v)"
  by (induction ds) (auto split: option.splits if_splits)

lemma update_document_by_field_Inr:
  assumes "update_document_by_field E c f v patch s = (Inr u, s')"
  shows "\<exists>pre i d post. fs s c = pre @ (i, d) # post
        \<and> (\<forall>x \<in> set pre. field (snd x) f \<noteq> Some (VStr v))
        \<and> field d f = Some (VStr v)
        \<and> s' = s\<lparr>fs := (fs s)(c := pre @ (i, merge_fields d patch) # post), xp := xp s + 2\<rparr>"
proof -
  obtain ds where u: "update_first f (VStr v) patch (fs s c) = Some ds"
    and s': "s' = s\<lparr>fs := (fs s)(c := ds), xp := xp s + 2\<rparr>"
    using assms
    by (auto simp add: update_document_by_field_def Let_def split: option.splits)
  from update_first_Some [OF u] s' show ?thesis by blast
qed

lemma update_document_by_field_no_match:
  assumes "\<forall>x \<in> set (fs s c). field (snd x) f \<noteq> Some (VStr v)"
  shows "\<exists>e. fst (update_document_by_field E c f v patch s) = Inl e
     \<and> fs (snd (update_document_by_field E c f v patch s)) = fs s"
proof -
  have "update_first f (VStr v) patch (fs s c) = None"
    using assms by (simp add: update_first_None)
  then show ?thesis
    by (simp add: update_document_by_field_def Let_def split: option.splits)
qed

lemma update_company_docs_append:
  "update_company_docs E (us1 @ us2) n s =
     (case update_company_docs E us1 n s of (n1, s1) \<Rightarrow> update_company_docs E us2 n1 s1)"
proof (induction us1 arbitrary: n s)
  case Nil
  show ?case by simp
next
  case (Cons a us1)
  obtain c pt vt where a: "a = (c, pt, vt)" by (cases a)
  show ?case using Cons.IH by (simp add: a Let_def split: prod.splits sum.splits)
qed

lemma update_company_docs_counts:
  "update_company_docs E us n s = (n', s') \<Longrightarrow>
     n' + length (log s') = n + length (log s) + length us"
proof (induction us arbitrary: n s)
  case Nil
  then show ?case by simp
next
  case (Cons a us)
  obtain c pt vt where a: "a = (c, pt, vt)" by (cases a)
  obtain r s1 where r: "update_document_by_field E ''companies'' ''name'' c
      [(''boxes_bought'', VInt pt), (''boxes_prov'', VInt vt)] s = (r, s1)"
    by (meson surj_pair)
  have l: "log s1 = log s"
    using r by (auto simp add: update_document_by_field_def Let_def split: option.splits)
  show ?case
  proof (cases r)
    case (Inl e)
    then have "update_company_docs E us n
        (s1\<lparr>log := log s1 @ [''Failed to update company document for '' @ c]\<rparr>) = (n', s')"
      using Cons.prems a r by simp
    from Cons.IH [OF this] l show ?thesis by simp
  next
    case (Inr u)
    then have "update_company_docs E us (n + 1) s1 = (n', s')"
      using Cons.prems a r by simp
    from Cons.IH [OF this] l show ?thesis by simp
  qed
qed

text \<open>
  C8. In the stage that patches the totals of the companies, the loop over the
  updates always goes on with the remaining updates: an update that raises (for
  example because no document matches) adds one line to the log and leaves
  \<open>updated_count\<close> as it is, so that the updates counted and the lines logged add up
  to the number of updates; the stage returns no exception. An update by match that
  succeeds replaces the first document whose match field has the value by that
  document with the fields of the patch set, every other field of it and every other
  document unchanged. The update raises when no document of the collection has the
  value in the match field, and then changes no document.
\<close>

theorem company_patch_failures_are_skipped:
  "update_company_docs E (us1 @ us2) n s =
     (case update_company_docs E us1 n s of (n1, s1) \<Rightarrow> update_company_docs E us2 n1 s1)
   \<and> (update_document_by_field E ''companies'' ''name'' cn
          [(''boxes_bought'', VInt pt), (''boxes_prov'', VInt vt)] s = (Inl e, s1)
        \<longrightarrow> update_company_docs E ((cn, pt, vt) # us) n s =
            update_company_docs E us n
              (s1\<lparr>log := log s1 @ [''Failed to update company document for '' @ cn]\<rparr>))
   \<and> (update_company_docs E us n s = (n', s')
        \<longrightarrow> n' + length (log s') = n + length (log s) + length us)
   \<and> (update_document_by_field E c f v patch s = (Inr u, t)
        \<longrightarrow> (\<exists>pre i d post.
               fs s c = pre @ (i, d) # post
               \<and> (\<forall>x \<in> set pre. field (snd x) f \<noteq> Some (VStr v))
               \<and> field d f = Some (VStr v)
               \<and> fs t = (fs s)(c := pre @ (i, merge_fields d patch) # post)
               \<and> (\<forall>k. k \<notin> fst ` set patch \<longrightarrow> field (merge_fields d patch) k = field d k)
               \<and> (distinct (map fst patch)
                    \<longrightarrow> (\<forall>x \<in> set patch. field (merge_fields d patch) (fst x) = Some (snd x)))))
   \<and> ((\<forall>x \<in> set (fs s c). field (snd x) f \<noteq> Some (VStr w))
        \<longrightarrow> (\<exists>e. fst (update_document_by_field E c f w patch s) = Inl e
               \<and> fs (snd (update_document_by_field E c f w patch s)) = fs s))"
proof (intro conjI impI)
  show "update_company_docs E (us1 @ us2) n s =
     (case update_company_docs E us1 n s of (n1, s1) \<Rightarrow> update_company_docs E us2 n1 s1)"
    by (rule update_company_docs_append)
next
  assume "update_document_by_field E ''companies'' ''name'' cn
          [(''boxes_bought'', VInt pt), (''boxes_prov'', VInt vt)] s = (Inl e, s1)"
  then show "update_company_docs E ((cn, pt, vt) # us) n s =
            update_company_docs E us n
              (s1\<lparr>log := log s1 @ [''Failed to update company document for '' @ cn]\<rparr>)"
    by simp
next
  assume "update_company_docs E us n s = (n', s')"
  then show "n' + length (log s') = n + length (log s) + length us"
    by (rule update_company_docs_counts)
next
  assume a: "update_document_by_field E c f v patch s = (Inr u, t)"
  obtain pre i d post where p: "fs s c = pre @ (i, d) # post"
      "\<forall>x \<in> set pre. field (snd x) f \<noteq> Some (VStr v)" "field d f = Some (VStr v)"
      "t = s\<lparr>fs := (fs s)(c := pre @ (i, merge_fields d patch) # post), xp := xp s + 2\<rparr>"
    using update_document_by_field_Inr [OF a] by blast
  have o: "\<forall>k. k \<notin> fst ` set patch \<longrightarrow> field (merge_fields d patch) k = field d k"
    by (simp add: field_merge_fields_other)
  have q: "distinct (map fst patch)
      \<longrightarrow> (\<forall>x \<in> set patch. field (merge_fields d patch) (fst x) = Some (snd x))"
    using field_merge_fields_patched [of patch _ _ d] by auto
  have "fs t = (fs s)(c := pre @ (i, merge_fields d patch) # post)" using p(4) by simp
  then show "\<exists>pre i d post.
               fs s c = pre @ (i, d) # post
               \<and> (\<forall>x \<in> set pre. field (snd x) f \<noteq> Some (VStr v))
               \<and> field d f = Some (VStr v)
               \<and> fs t = (fs s)(c := pre @ (i, merge_fields d patch) # post)
               \<and> (\<forall>k. k \<notin> fst ` set patch \<longrightarrow> field (merge_fields d patch) k = field d k)
               \<and> (distinct (map fst patch)
                    \<longrightarrow> (\<forall>x \<in> set patch. field (merge_fields d patch) (fst x) = Some (snd x)))"
    using p(1,2,3) o q by blast
next
  assume "\<forall>x \<in> set (fs s c). field (snd x) f \<noteq> Some (VStr w)"
  then show "\<exists>e. fst (update_document_by_field E c f w patch s) = Inl e
               \<and> fs (snd (update_document_by_field E c f w patch s)) = fs s"
    by (rule update_document_by_field_no_match)
qed


theorem company_patch_failures_are_skipped_witness:
  "fst (update_company_docs zero_env [(''Zeta'', 3, 2), (''Bolt'', 7, 4)] 0 two_companies)
     + length (log (snd (update_company_docs zero_env [(''Zeta'', 3, 2), (''Bolt'', 7, 4)] 0
         two_companies)))
     = 0 + length (log two_companies) + length [(''Zeta'', 3::int, 2::int), (''Bolt'', 7, 4)]
   \<and> fst (update_company_docs zero_env [(''Zeta'', 3, 2), (''Bolt'', 7, 4)] 0 two_companies) = 1
   \<and> log (snd (update_company_docs zero_env [(''Zeta'', 3, 2), (''Bolt'', 7, 4)] 0
         two_companies))
       = [''Failed to update company document for Zeta'']
   \<and> fs (snd (update_company_docs zero_env [(''Zeta'', 3, 2), (''Bolt'', 7, 4)] 0
         two_companies)) ''companies''
       = [(0, [(''name'', VStr ''Acme''), (''earliest_reg'', VTime 1699136000000000),
               (''boxes_bought'', VInt 0), (''boxes_prov'', VInt 0)]),
          (1, [(''name'', VStr ''Bolt''), (''earliest_reg'', VTime 1699740800000000),
               (''boxes_bought'', VInt 7), (''boxes_prov'', VInt 4)])]
   \<and> (\<exists>e. fst (update_document_by_field zero_env ''companies'' ''name'' ''Zeta''
               [(''boxes_bought'', VInt 3), (''boxes_prov'', VInt 2)] two_companies) = Inl e
          \<and> fs (snd (update_document_by_field zero_env ''companies'' ''name'' ''Zeta''
               [(''boxes_bought'', VInt 3), (''boxes_prov'', VInt 2)] two_companies))
             = fs two_companies)"
proof -
  let ?ups = "[(''Zeta'', 3::int, 2::int), (''Bolt'', 7, 4)]"
  let ?r = "update_company_docs zero_env ?ups 0 two_companies"
  note t = company_patch_failures_are_skipped
    [where E = zero_env and us = ?ups and n = 0 and s = two_companies
       and n' = "fst ?r" and s' = "snd ?r"]
  have r: "update_company_docs zero_env ?ups 0 two_companies = (fst ?r, snd ?r)" by simp
  have a: "fst ?r + length (log (snd ?r)) = 0 + length (log two_companies) + length ?ups"
    using t r by blast
  have b: "fst ?r = 1" by code_simp
  have c: "log (snd ?r) = [''Failed to update company document for Zeta'']" by code_simp
  have d: "fs (snd ?r) ''companies''
       = [(0, [(''name'', VStr ''Acme''), (''earliest_reg'', VTime 1699136000000000),
               (''boxes_bought'', VInt 0), (''boxes_prov'', VInt 0)]),
          (1, [(''name'', VStr ''Bolt''), (''earliest_reg'', VTime 1699740800000000),
               (''boxes_bought'', VInt 7), (''boxes_prov'', VInt 4)])]"
    by code_simp
  have nm: "\<forall>x \<in> set (fs two_companies ''companies''). field (snd x) ''name'' \<noteq> Some (VStr ''Zeta'')"
    by (simp add: two_companies_def empty_sys_def field_def)
  have e: "\<exists>e. fst (update_document_by_field zero_env ''companies'' ''name'' ''Zeta''
               [(''boxes_bought'', VInt 3), (''boxes_prov'', VInt 2)] two_companies) = Inl e
          \<and> fs (snd (update_document_by_field zero_env ''companies'' ''name'' ''Zeta''
               [(''boxes_bought'', VInt 3), (''boxes_prov'', VInt 2)] two_companies))
             = fs two_companies"
    using company_patch_failures_are_skipped
      [where E = zero_env and s = two_companies and c = "''companies''" and f = "''name''"
         and w = "''Zeta''" and patch = "[(''boxes_bought'', VInt 3), (''boxes_prov'', VInt 2)]"]
      nm
    by blast
  show ?thesis using a b c d e by blast
qed

subsection \<open>Inserting rows into a table\<close>

lemma chunks_Nil [simp]: "0 < n \<Longrightarrow> chunks n [] = []"
  by (simp add: chunks_def)

lemma chunks_count:
  assumes n: "0 < n" and xs: "xs \<noteq> []"
  shows "(length xs + n - 1) div n = Suc ((length (drop n xs) + n - 1) div n)"
proof -
  have l: "0 < length xs" using xs by simp
  have e: "length xs + n - 1 = (length xs - 1) + n" using l by arith
  have m: "(length xs + n - 1) div n = Suc ((length xs - 1) div n)"
    unfolding e using n by simp
  have "(length (drop n xs) + n - 1) div n = (length xs - 1) div n"
  proof (cases "n \<le> length xs")
    case True
    then have "length (drop n xs) + n - 1 = length xs - 1" by simp
    then show ?thesis by simp
  next
    case False
    then have "length (drop n xs) + n - 1 = n - 1" by simp
    moreover have "(n - 1) div n = 0" using n by simp
    moreover have "(length xs - 1) div n = 0" using False by simp
    ultimately show ?thesis by simp
  qed
  then show ?thesis using m by simp
qed

lemma chunks_rec:
  assumes n: "0 < n" and xs: "xs \<noteq> []"
  shows "chunks n xs = take n xs # chunks n (drop n xs)"
proof -
  let ?m' = "(length (drop n xs) + n - 1) div n"
  have u: "[0..<Suc ?m'] = 0 # map Suc [0..<?m']"
    by (simp only: upt_conv_Cons [of 0 "Suc ?m'"] map_Suc_upt)
  have "chunks n xs = map (\<lambda>k. take n (drop (k * n) xs)) (0 # map Suc [0..<?m'])"
    unfolding chunks_def chunks_count [OF n xs] u ..
  also have "\<dots> = take n xs # map (\<lambda>k. take n (drop (Suc k * n) xs)) [0..<?m']"
    by (simp add: comp_def)
  also have "map (\<lambda>k. take n (drop (Suc k * n) xs)) [0..<?m']
      = map (\<lambda>k. take n (drop (k * n) (drop n xs))) [0..<?m']"
    by (simp add: add.commute)
  also have "\<dots> = chunks n (drop n xs)"
    unfolding chunks_def ..
  finally show ?thesis .
qed

lemma concat_chunks: "0 < n \<Longrightarrow> concat (chunks n xs) = xs"
proof (induction xs rule: length_induct)
  case (1 xs)
  show ?case
  proof (cases "xs = []")
    case True
    then show ?thesis using "1.prems" by simp
  next
    case False
    have "length (drop n xs) < length xs" using False "1.prems" by simp
    then have "concat (chunks n (drop n xs)) = drop n xs" using "1.IH" "1.prems" by blast
    then show ?thesis unfolding chunks_rec [OF "1.prems" False] by simp
  qed
qed

lemma chunks_lengths: "0 < n \<Longrightarrow> \<forall>b \<in> set (chunks n xs). b \<noteq> [] \<and> length b \<le> n"
proof (induction xs rule: length_induct)
  case (1 xs)
  show ?case
  proof (cases "xs = []")
    case True
    then show ?thesis using "1.prems" by simp
  next
    case False
    have "length (drop n xs) < length xs" using False "1.prems" by simp
    then have "\<forall>b \<in> set (chunks n (drop n xs)). b \<noteq> [] \<and> length b \<le> n"
      using "1.IH" "1.prems" by blast
    then show ?thesis unfolding chunks_rec [OF "1.prems" False] using False "1.prems" by simp
  qed
qed

lemma fun_upd_if_twice:
  "(\<lambda>a. if a = t then x else if a = t then y else f a) = f(t := x)"
  by (auto simp add: fun_eq_iff)

lemma fun_upd_if:
  "(\<lambda>a. if a = t then x else f a) = f(t := x)"
  by (auto simp add: fun_eq_iff)

lemma retries: "[0..<max_retries] = [0, 1, 2]"
  by (simp add: max_retries_def upt_rec)

lemma insert_attempts_ok:
  "insert_error (ext E (xp s)) = None \<Longrightarrow>
     insert_attempts E t batch (a # rest) s =
       (Inr (length batch), s\<lparr>xp := xp s + 1, bq := (bq s)(t := bq s t @ batch)\<rparr>)"
  by simp

lemma insert_attempts_retry:
  "insert_error (ext E (xp s)) = Some e \<Longrightarrow> mentions_not_found (str_exn e) \<Longrightarrow>
   a < max_retries - 1 \<Longrightarrow>
     insert_attempts E t batch (a # rest) s =
       insert_attempts E t batch rest
         (s\<lparr>xp := xp s + 1, slept := slept s @ [base_delay * 2 ^ a]\<rparr>)"
  by simp

lemma insert_attempts_fatal:
  "insert_error (ext E (xp s)) = Some e \<Longrightarrow>
   \<not> mentions_not_found (str_exn e) \<or> \<not> a < max_retries - 1 \<Longrightarrow>
     insert_attempts E t batch (a # rest) s = (Inl e, s\<lparr>xp := xp s + 1\<rparr>)"
  by auto

lemma insert_batches_ok:
  "\<forall>k \<ge> xp s. insert_error (ext E k) = None \<Longrightarrow>
     insert_batches E t bs n s =
       (Inr (n + length (concat bs)),
        s\<lparr>xp := xp s + length bs, bq := (bq s)(t := bq s t @ concat bs)\<rparr>)"
proof (induction bs arbitrary: n s)
  case Nil
  show ?case by simp
next
  case (Cons b bs)
  let ?s1 = "s\<lparr>xp := xp s + 1, bq := (bq s)(t := bq s t @ b)\<rparr>"
  have a: "insert_attempts E t b [0..<max_retries] s = (Inr (length b), ?s1)"
    using Cons.prems by (simp add: retries)
  have "\<forall>k \<ge> xp ?s1. insert_error (ext E k) = None" using Cons.prems by simp
  from Cons.IH [OF this, of "n + length b"]
  have "insert_batches E t bs (n + length b) ?s1 =
      (Inr (n + length b + length (concat bs)),
       s\<lparr>xp := xp s + 1 + length bs, bq := (bq s)(t := bq s t @ b @ concat bs)\<rparr>)"
    by (simp add: fun_upd_if_twice)
  then show ?case using a by (simp add: fun_upd_if)
qed

lemma write_rows_ok:
  assumes "\<forall>k \<ge> xp s. insert_error (ext E k) = None"
  shows "write_rows_to_table E t rows s =
       (Inr (length rows),
        s\<lparr>xp := xp s + length (chunks insert_batch_size rows),
          bq := (bq s)(t := bq s t @ rows)\<rparr>)"
proof (cases "rows = []")
  case True
  then show ?thesis by (simp add: write_rows_to_table_def insert_batch_size_def)
next
  case False
  have c: "concat (chunks insert_batch_size rows) = rows"
    by (simp add: concat_chunks insert_batch_size_def)
  show ?thesis
    using False insert_batches_ok [OF assms, of t "chunks insert_batch_size rows" 0] c
    by (simp add: write_rows_to_table_def)
qed

lemma write_rows_twice_not_found:
  assumes r: "rows \<noteq> []"
    and f1: "insert_error (ext E (xp s)) = Some e1" "mentions_not_found (str_exn e1)"
    and f2: "insert_error (ext E (xp s + 1)) = Some e2" "mentions_not_found (str_exn e2)"
    and ok: "\<forall>k \<ge> xp s + 2. insert_error (ext E k) = None"
  shows "write_rows_to_table E t rows s =
       (Inr (length rows),
        s\<lparr>xp := xp s + 2 + length (chunks insert_batch_size rows),
          slept := slept s @ [1, 2],
          bq := (bq s)(t := bq s t @ rows)\<rparr>)"
proof -
  have n: "0 < insert_batch_size" by (simp add: insert_batch_size_def)
  obtain b bs where ch: "chunks insert_batch_size rows = b # bs"
    using chunks_rec [OF n r] by blast
  have c: "b @ concat bs = rows" using concat_chunks [OF n, of rows] ch by simp
  let ?s1 = "s\<lparr>xp := xp s + 1, slept := slept s @ [1]\<rparr>"
  let ?s2 = "s\<lparr>xp := xp s + 2, slept := slept s @ [1, 2]\<rparr>"
  let ?s3 = "s\<lparr>xp := xp s + 3, slept := slept s @ [1, 2], bq := (bq s)(t := bq s t @ b)\<rparr>"
  have "insert_attempts E t b [0, 1, 2] s = insert_attempts E t b [1, 2] ?s1"
    using f1 by (simp add: max_retries_def base_delay_def)
  also have "\<dots> = insert_attempts E t b [2] ?s2"
    using f2 by (simp add: max_retries_def base_delay_def)
  also have "\<dots> = (Inr (length b), ?s3)"
    using ok by simp
  finally have a: "insert_attempts E t b [0..<max_retries] s = (Inr (length b), ?s3)"
    by (simp add: retries)
  have "\<forall>k \<ge> xp ?s3. insert_error (ext E k) = None" using ok by simp
  from insert_batches_ok [OF this, of t bs "length b"]
  have "insert_batches E t bs (length b) ?s3 =
      (Inr (length (b @ concat bs)),
        s\<lparr>xp := xp s + 3 + length bs, slept := slept s @ [1, 2],
          bq := (bq s)(t := bq s t @ (b @ concat bs))\<rparr>)"
    by (simp add: fun_upd_if_twice)
  then have "insert_batches E t (b # bs) 0 s =
      (Inr (length rows),
        s\<lparr>xp := xp s + 3 + length bs, slept := slept s @ [1, 2],
          bq := (bq s)(t := bq s t @ rows)\<rparr>)"
    using a unfolding c by simp
  then show ?thesis using r ch
    by (simp add: write_rows_to_table_def)
qed

lemma write_rows_always_not_found:
  assumes r: "rows \<noteq> []"
    and f: "\<forall>k. \<exists>e. insert_error (ext E k) = Some e \<and> mentions_not_found (str_exn e)"
  shows "\<exists>e. write_rows_to_table E t rows s =
       (Inl (ExternalServiceError (''Error writing rows to table '' @ t @ '': '' @ str_exn e)),
        s\<lparr>xp := xp s + 3, slept := slept s @ [1, 2]\<rparr>)
       \<and> insert_error (ext E (xp s + 2)) = Some e"
proof -
  have n: "0 < insert_batch_size" by (simp add: insert_batch_size_def)
  obtain b bs where ch: "chunks insert_batch_size rows = b # bs"
    using chunks_rec [OF n r] by blast
  obtain e1 where f1: "insert_error (ext E (xp s)) = Some e1" "mentions_not_found (str_exn e1)"
    using f by blast
  obtain e2 where f2: "insert_error (ext E (xp s + 1)) = Some e2" "mentions_not_found (str_exn e2)"
    using f by blast
  obtain e3 where f3: "insert_error (ext E (xp s + 2)) = Some e3"
    using f by blast
  let ?s1 = "s\<lparr>xp := xp s + 1, slept := slept s @ [1]\<rparr>"
  let ?s2 = "s\<lparr>xp := xp s + 2, slept := slept s @ [1, 2]\<rparr>"
  let ?s3 = "s\<lparr>xp := xp s + 3, slept := slept s @ [1, 2]\<rparr>"
  have "insert_attempts E t b [0, 1, 2] s = insert_attempts E t b [1, 2] ?s1"
    using f1 by (simp add: max_retries_def base_delay_def)
  also have "\<dots> = insert_attempts E t b [2] ?s2"
    using f2 by (simp add: max_retries_def base_delay_def)
  also have "\<dots> = (Inl e3, ?s3)"
    using f3 by (simp add: max_retries_def)
  finally have a: "insert_attempts E t b [0..<max_retries] s = (Inl e3, ?s3)"
    by (simp add: retries)
  then show ?thesis using r ch f3 by (simp add: write_rows_to_table_def)
qed

lemma write_rows_fatal:
  assumes r: "rows \<noteq> []"
    and f: "insert_error (ext E (xp s)) = Some e" "\<not> mentions_not_found (str_exn e)"
  shows "write_rows_to_table E t rows s =
       (Inl (ExternalServiceError (''Error writing rows to table '' @ t @ '': '' @ str_exn e)),
        s\<lparr>xp := xp s + 1\<rparr>)"
proof -
  have n: "0 < insert_batch_size" by (simp add: insert_batch_size_def)
  obtain b bs where ch: "chunks insert_batch_size rows = b # bs"
    using chunks_rec [OF n r] by blast
  have a: "insert_attempts E t b [0..<max_retries] s = (Inl e, s\<lparr>xp := xp s + 1\<rparr>)"
    using f by (simp add: retries)
  then show ?thesis using r ch by (simp add: write_rows_to_table_def)
qed

text \<open>
  C5. \<open>write_rows_to_table\<close> cuts the rows into consecutive batches of at most 10000
  rows and inserts them in order, one call per batch when no call fails. When,
  for rows that are not empty, the first two calls fail with an error whose text
  mentions "not found" and every later call succeeds, all the rows are inserted and
  exactly two sleeps are made, of 1 and 2 seconds. When every call fails with such
  an error, the insert raises after exactly three calls (and the same two sleeps),
  with nothing inserted. An error whose text does not mention "not found" is raised
  at once, at any attempt, with no sleep and no further call.
\<close>

theorem table_insert_retries_not_found:
  "concat (chunks insert_batch_size rows) = rows
   \<and> (\<forall>b \<in> set (chunks insert_batch_size rows). b \<noteq> [] \<and> length b \<le> 10000)
   \<and> ((\<forall>k \<ge> xp s. insert_error (ext E k) = None)
        \<longrightarrow> write_rows_to_table E t rows s =
              (Inr (length rows),
               s\<lparr>xp := xp s + length (chunks insert_batch_size rows),
                 bq := (bq s)(t := bq s t @ rows)\<rparr>))
   \<and> (rows \<noteq> []
        \<and> insert_error (ext E (xp s)) = Some e1 \<and> mentions_not_found (str_exn e1)
        \<and> insert_error (ext E (xp s + 1)) = Some e2 \<and> mentions_not_found (str_exn e2)
        \<and> (\<forall>k \<ge> xp s + 2. insert_error (ext E k) = None)
        \<longrightarrow> write_rows_to_table E t rows s =
              (Inr (length rows),
               s\<lparr>xp := xp s + 2 + length (chunks insert_batch_size rows),
                 slept := slept s @ [1, 2],
                 bq := (bq s)(t := bq s t @ rows)\<rparr>))
   \<and> (rows \<noteq> []
        \<and> (\<forall>k. \<exists>e. insert_error (ext E k) = Some e \<and> mentions_not_found (str_exn e))
        \<longrightarrow> (\<exists>e. write_rows_to_table E t rows s =
                 (Inl (ExternalServiceError
                         (''Error writing rows to table '' @ t @ '': '' @ str_exn e)),
                  s\<lparr>xp := xp s + 3, slept := slept s @ [1, 2]\<rparr>)))
   \<and> (insert_error (ext E (xp s)) = Some e \<and> \<not> mentions_not_found (str_exn e)
        \<longrightarrow> insert_attempts E t batch (a # rest) s = (Inl e, s\<lparr>xp := xp s + 1\<rparr>)
            \<and> (rows \<noteq> []
                 \<longrightarrow> write_rows_to_table E t rows s =
                       (Inl (ExternalServiceError
                               (''Error writing rows to table '' @ t @ '': '' @ str_exn e)),
                        s\<lparr>xp := xp s + 1\<rparr>)))"
proof -
  have n: "0 < insert_batch_size" by (simp add: insert_batch_size_def)
  have c1: "concat (chunks insert_batch_size rows) = rows"
    using concat_chunks [OF n] .
  have c2: "\<forall>b \<in> set (chunks insert_batch_size rows). b \<noteq> [] \<and> length b \<le> 10000"
    using chunks_lengths [OF n, of rows] by (simp add: insert_batch_size_def)
  have c3: "(\<forall>k \<ge> xp s. insert_error (ext E k) = None)
        \<longrightarrow> write_rows_to_table E t rows s =
              (Inr (length rows),
               s\<lparr>xp := xp s + length (chunks insert_batch_size rows),
                 bq := (bq s)(t := bq s t @ rows)\<rparr>)"
    using write_rows_ok by blast
  have c4: "rows \<noteq> []
        \<and> insert_error (ext E (xp s)) = Some e1 \<and> mentions_not_found (str_exn e1)
        \<and> insert_error (ext E (xp s + 1)) = Some e2 \<and> mentions_not_found (str_exn e2)
        \<and> (\<forall>k \<ge> xp s + 2. insert_error (ext E k) = None)
        \<longrightarrow> write_rows_to_table E t rows s =
              (Inr (length rows),
               s\<lparr>xp := xp s + 2 + length (chunks insert_batch_size rows),
                 slept := slept s @ [1, 2],
                 bq := (bq s)(t := bq s t @ rows)\<rparr>)"
    using write_rows_twice_not_found by blast
  have c5: "rows \<noteq> []
        \<and> (\<forall>k. \<exists>e. insert_error (ext E k) = Some e \<and> mentions_not_found (str_exn e))
        \<longrightarrow> (\<exists>e. write_rows_to_table E t rows s =
                 (Inl (ExternalServiceError
                         (''Error writing rows to table '' @ t @ '': '' @ str_exn e)),
                  s\<lparr>xp := xp s + 3, slept := slept s @ [1, 2]\<rparr>))"
    using write_rows_always_not_found [of rows E t s] by blast
  have c6: "insert_error (ext E (xp s)) = Some e \<and> \<not> mentions_not_found (str_exn e)
        \<longrightarrow> insert_attempts E t batch (a # rest) s = (Inl e, s\<lparr>xp := xp s + 1\<rparr>)
            \<and> (rows \<noteq> []
                 \<longrightarrow> write_rows_to_table E t rows s =
                       (Inl (ExternalServiceError
                               (''Error writing rows to table '' @ t @ '': '' @ str_exn e)),
                        s\<lparr>xp := xp s + 1\<rparr>))"
    using insert_attempts_fatal [of E s e a t batch rest] write_rows_fatal [of rows E s e t]
    by blast
  show ?thesis using c1 c2 c3 c4 c5 c6 by blast
qed

theorem table_insert_retries_not_found_witness:
  "fst (write_rows_to_table not_found_twice_env ''company_events'' cx_rows empty_sys) = Inr 2
   \<and> slept (snd (write_rows_to_table not_found_twice_env ''company_events'' cx_rows empty_sys))
       = [1, 2]
   \<and> xp (snd (write_rows_to_table not_found_twice_env ''company_events'' cx_rows empty_sys)) = 3
   \<and> bq (snd (write_rows_to_table not_found_twice_env ''company_events'' cx_rows empty_sys))
        ''company_events'' = cx_rows
   \<and> isl (fst (write_rows_to_table not_found_env ''company_events'' cx_rows empty_sys))
   \<and> slept (snd (write_rows_to_table not_found_env ''company_events'' cx_rows empty_sys))
       = [1, 2]
   \<and> xp (snd (write_rows_to_table not_found_env ''company_events'' cx_rows empty_sys)) = 3
   \<and> bq (snd (write_rows_to_table not_found_env ''company_events'' cx_rows empty_sys))
        ''company_events'' = []
   \<and> isl (fst (write_rows_to_table failing_env ''company_events'' cx_rows empty_sys))
   \<and> slept (snd (write_rows_to_table failing_env ''company_events'' cx_rows empty_sys)) = []
   \<and> xp (snd (write_rows_to_table failing_env ''company_events'' cx_rows empty_sys)) = 1
   \<and> fst (write_rows_to_table zero_env ''company_events'' cx_rows empty_sys) = Inr 2
   \<and> xp (snd (write_rows_to_table zero_env ''company_events'' cx_rows empty_sys)) = 1"
proof -
  have nf: "mentions_not_found ''404 Not found: Table company_events''" by code_simp
  have nnf: "\<not> mentions_not_found ''503 unavailable''" by code_simp
  have r: "cx_rows \<noteq> []" by (simp add: cx_rows_def)
  have l: "length cx_rows = 2" by (simp add: cx_rows_def)
  have ch: "length (chunks insert_batch_size cx_rows) = 1"
    by (simp add: chunks_def insert_batch_size_def cx_rows_def)
  have x0: "xp empty_sys = 0" "slept empty_sys = []" "bq empty_sys ''company_events'' = []"
    by (simp_all add: empty_sys_def)
  have h2: "insert_error (ext not_found_twice_env (xp empty_sys))
        = Some (BackendError ''404 Not found: Table company_events'')"
      "insert_error (ext not_found_twice_env (xp empty_sys + 1))
        = Some (BackendError ''404 Not found: Table company_events'')"
      "\<forall>k \<ge> xp empty_sys + 2. insert_error (ext not_found_twice_env k) = None"
    by (simp_all add: not_found_twice_env_def zero_env_def insert_error_def x0)
  have m: "mentions_not_found (str_exn (BackendError ''404 Not found: Table company_events''))"
    using nf by (simp add: str_exn_def)
  have a: "write_rows_to_table not_found_twice_env ''company_events'' cx_rows empty_sys =
              (Inr (length cx_rows),
               empty_sys\<lparr>xp := xp empty_sys + 2 + length (chunks insert_batch_size cx_rows),
                 slept := slept empty_sys @ [1, 2],
                 bq := (bq empty_sys)(''company_events'' :=
                          bq empty_sys ''company_events'' @ cx_rows)\<rparr>)"
    using table_insert_retries_not_found
      [where E = not_found_twice_env and s = empty_sys and rows = cx_rows
         and t = "''company_events''"
         and ?e1.0 = "BackendError ''404 Not found: Table company_events''"
         and ?e2.0 = "BackendError ''404 Not found: Table company_events''"]
      r h2 m
    by blast
  have h3: "\<forall>k. \<exists>e. insert_error (ext not_found_env k) = Some e
      \<and> mentions_not_found (str_exn e)"
    using m by (simp add: not_found_env_def zero_env_def insert_error_def)
  obtain e where b: "write_rows_to_table not_found_env ''company_events'' cx_rows empty_sys =
       (Inl (ExternalServiceError
               (''Error writing rows to table '' @ ''company_events'' @ '': '' @ str_exn e)),
        empty_sys\<lparr>xp := xp empty_sys + 3, slept := slept empty_sys @ [1, 2]\<rparr>)"
    using table_insert_retries_not_found
      [where E = not_found_env and s = empty_sys and rows = cx_rows
         and t = "''company_events''"]
      r h3
    by blast
  have h4: "insert_error (ext failing_env (xp empty_sys)) = Some (BackendError ''503 unavailable'')"
     "\<not> mentions_not_found (str_exn (BackendError ''503 unavailable''))"
    using nnf by (simp_all add: failing_env_def zero_env_def insert_error_def str_exn_def)
  have c: "write_rows_to_table failing_env ''company_events'' cx_rows empty_sys =
       (Inl (ExternalServiceError
               (''Error writing rows to table '' @ ''company_events'' @ '': ''
                @ str_exn (BackendError ''503 unavailable''))),
        empty_sys\<lparr>xp := xp empty_sys + 1\<rparr>)"
    using table_insert_retries_not_found
      [where E = failing_env and s = empty_sys and rows = cx_rows
         and t = "''company_events''" and e = "BackendError ''503 unavailable''"]
      r h4
    by blast
  have h5: "\<forall>k \<ge> xp empty_sys. insert_error (ext zero_env k) = None"
    by (simp add: zero_env_def insert_error_def)
  have d: "write_rows_to_table zero_env ''company_events'' cx_rows empty_sys =
              (Inr (length cx_rows),
               empty_sys\<lparr>xp := xp empty_sys + length (chunks insert_batch_size cx_rows),
                 bq := (bq empty_sys)(''company_events'' :=
                          bq empty_sys ''company_events'' @ cx_rows)\<rparr>)"
    using table_insert_retries_not_found
      [where E = zero_env and s = empty_sys and rows = cx_rows and t = "''company_events''"]
      h5
    by blast
  show ?thesis
    unfolding a b c d by (simp add: l ch x0)
qed

subsection \<open>Deleting the documents of a collection\<close>

lemma submit_loop_inv:
  assumes "submit_loop E bs mw x0 refs cur futs sub = (sub', futs', cur', None)"
    and "\<forall>k < length sub. k \<notin> set futs \<longrightarrow> failure_of (ext E (x0 + k)) = None"
  shows "concat sub' @ cur' = concat sub @ cur @ refs
     \<and> (\<forall>k < length sub'. k \<notin> set futs' \<longrightarrow> failure_of (ext E (x0 + k)) = None)"
  using assms
proof (induction refs arbitrary: cur futs sub)
  case Nil
  then show ?case by simp
next
  case (Cons r rs)
  let ?cur1 = "cur @ [r]"
  let ?futs1 = "futs @ [length sub]"
  let ?sub1 = "sub @ [?cur1]"
  show ?case
  proof (cases "bs \<le> length ?cur1")
    case False
    then have "submit_loop E bs mw x0 rs ?cur1 futs sub = (sub', futs', cur', None)"
      using Cons.prems(1) by (simp add: Let_def)
    from Cons.IH [OF this Cons.prems(2)] show ?thesis by simp
  next
    case True
    show ?thesis
    proof (cases "mw * 2 \<le> length ?futs1")
      case False
      then have run: "submit_loop E bs mw x0 rs [] ?futs1 ?sub1 = (sub', futs', cur', None)"
        using Cons.prems(1) True by (simp add: Let_def)
      have "\<forall>k < length ?sub1. k \<notin> set ?futs1 \<longrightarrow> failure_of (ext E (x0 + k)) = None"
        using Cons.prems(2) by (auto simp add: less_Suc_eq)
      from Cons.IH [OF run this] show ?thesis by simp
    next
      case w: True
      have okh: "failure_of (ext E (x0 + hd ?futs1)) = None"
        using Cons.prems(1) True w by (auto simp add: Let_def split: option.splits)
      then have run: "submit_loop E bs mw x0 rs [] (tl ?futs1) ?sub1 = (sub', futs', cur', None)"
        using Cons.prems(1) True w by (simp add: Let_def)
      have "\<forall>k < length ?sub1. k \<notin> set (tl ?futs1) \<longrightarrow> failure_of (ext E (x0 + k)) = None"
      proof (intro allI impI)
        fix k assume k: "k < length ?sub1" and n: "k \<notin> set (tl ?futs1)"
        show "failure_of (ext E (x0 + k)) = None"
        proof (cases "k = hd ?futs1")
          case True
          then show ?thesis using okh by simp
        next
          case False
          have "set ?futs1 = insert (hd ?futs1) (set (tl ?futs1))"
            by (metis append_is_Nil_conv list.exhaust_sel list.simps(15) not_Cons_self2)
          then have "k \<notin> set ?futs1" using False n by simp
          then have "k \<noteq> length sub" "k \<notin> set futs" by simp_all
          then show ?thesis using Cons.prems(2) k by (simp add: less_Suc_eq)
        qed
      qed
      from Cons.IH [OF run this] show ?thesis by simp
    qed
  qed
qed

lemma map_filter_Nil_iff:
  "List.map_filter f xs = [] \<longleftrightarrow> (\<forall>x \<in> set xs. f x = None)"
  by (induction xs) (auto simp add: List.map_filter_simps split: option.splits)

lemma committed_all:
  "\<forall>k < length sub. failure_of (ext E (x0 + k)) = None \<Longrightarrow> committed E x0 sub = concat sub"
proof -
  assume a: "\<forall>k < length sub. failure_of (ext E (x0 + k)) = None"
  have "map (\<lambda>k. if failure_of (ext E (x0 + k)) = None then sub ! k else []) [0..<length sub]
      = map (\<lambda>k. sub ! k) [0..<length sub]"
    using a by simp
  then show ?thesis by (simp add: committed_def map_nth)
qed

lemma run_batches_None:
  assumes "run_batches E bs mw x0 refs = (sub, None)"
  shows "committed E x0 sub = refs"
proof -
  obtain sub0 futs0 cur0 where l: "submit_loop E bs mw x0 refs [] [] [] = (sub0, futs0, cur0, None)"
    using assms by (auto simp add: run_batches_def split: prod.splits option.splits)
  have inv: "concat sub0 @ cur0 = refs"
      "\<forall>k < length sub0. k \<notin> set futs0 \<longrightarrow> failure_of (ext E (x0 + k)) = None"
    using submit_loop_inv [OF l] by simp_all
  let ?futs1 = "if cur0 \<noteq> [] then futs0 @ [length sub0] else futs0"
  let ?sub1 = "if cur0 \<noteq> [] then sub0 @ [cur0] else sub0"
  have s: "sub = ?sub1"
    and f: "List.map_filter (\<lambda>k. failure_of (ext E (x0 + k))) ?futs1 = []"
    using assms l by (auto simp add: run_batches_def Let_def split: list.splits if_splits)
  have okf: "\<forall>k \<in> set ?futs1. failure_of (ext E (x0 + k)) = None"
    using f by (simp only: map_filter_Nil_iff)
  have "\<forall>k < length ?sub1. failure_of (ext E (x0 + k)) = None"
  proof (intro allI impI)
    fix k assume k: "k < length ?sub1"
    show "failure_of (ext E (x0 + k)) = None"
    proof (cases "k \<in> set ?futs1")
      case True
      then show ?thesis using okf by blast
    next
      case False
      then have "k \<notin> set futs0" "k < length sub0"
        using k by (auto split: if_splits simp add: less_Suc_eq)
      then show ?thesis using inv(2) by blast
    qed
  qed
  then have "committed E x0 ?sub1 = concat ?sub1" by (rule committed_all)
  then show ?thesis using s inv(1) by (auto split: if_splits)
qed

lemma delete_all_documents_Inr:
  assumes "delete_all_documents E c bs mw s = (Inr n, s')"
  shows "n = length (take (bs * 4) (fs s c))
     \<and> (\<exists>x. s' = s\<lparr>fs := (fs s)(c :=
            filter (\<lambda>(i, d). i \<notin> set (map fst (take (bs * 4) (fs s c)))) (fs s c)),
          xp := x\<rparr> \<and> xp s \<le> x)"
proof -
  let ?refs = "map fst (take (bs * 4) (fs s c))"
  obtain sub where r: "run_batches E bs mw (xp s + 1) ?refs = (sub, None)"
    and n: "n = length (committed E (xp s + 1) sub)"
    and s': "s' = s\<lparr>fs := (fs s)(c :=
                 filter (\<lambda>(i, d). i \<notin> set (committed E (xp s + 1) sub)) (fs s c)),
               xp := xp s + 1 + length sub\<rparr>"
    using assms
    by (auto simp add: delete_all_documents_def Let_def
          split: if_splits option.splits prod.splits)
  have "committed E (xp s + 1) sub = ?refs" using run_batches_None [OF r] .
  then show ?thesis using n s' by auto
qed

lemma filter_all_ids: "filter (\<lambda>(i, d). i \<notin> set (map fst xs)) xs = []"
  by (force simp add: filter_empty_conv)

lemma filter_all_ids': "filter (\<lambda>(i, d). i \<notin> fst ` set xs) xs = []"
  using filter_all_ids [of xs] by simp

lemma delete_all_documents_empties:
  assumes "delete_all_documents E c bs mw s = (Inr n, s')" "length (fs s c) \<le> bs * 4"
  shows "n = length (fs s c) \<and> (\<exists>x. s' = s\<lparr>fs := (fs s)(c := []), xp := x\<rparr> \<and> xp s \<le> x)"
  using delete_all_documents_Inr [OF assms(1)] assms(2) by (simp add: filter_all_ids')

lemma delete_all_documents_frame:
  assumes "delete_all_documents E c bs mw s = (r, s')"
  shows "\<exists>del x. s' = s\<lparr>fs := (fs s)(c := filter (\<lambda>(i, d). i \<notin> set del) (fs s c)), xp := x\<rparr>
     \<and> xp s \<le> x"
proof -
  have triv: "s = s\<lparr>fs := (fs s)(c := filter (\<lambda>(i, d). i \<notin> set []) (fs s c)), xp := xp s\<rparr>"
    by simp
  have triv1: "s\<lparr>xp := xp s + 1\<rparr>
      = s\<lparr>fs := (fs s)(c := filter (\<lambda>(i, d). i \<notin> set []) (fs s c)), xp := xp s + 1\<rparr>"
    by simp
  show ?thesis
  proof (cases "mw = 0")
    case True
    then have "s' = s" using assms by (simp add: delete_all_documents_def Let_def)
    then show ?thesis using triv by (metis le_refl)
  next
    case False
    show ?thesis
    proof (cases "failure_of (ext E (xp s))")
      case (Some m)
      then have "s' = s\<lparr>xp := xp s + 1\<rparr>"
        using assms False by (simp add: delete_all_documents_def Let_def)
      then show ?thesis using triv1 by (metis le_add1)
    next
      case None
      then have "\<exists>del n. s' = s\<lparr>fs := (fs s)(c := filter (\<lambda>(i, d). i \<notin> set del) (fs s c)),
          xp := xp s + 1 + n\<rparr>"
        using assms False
        by (auto simp add: delete_all_documents_def Let_def split: prod.splits option.splits)
      then show ?thesis by (metis le_add1 add.assoc)
    qed
  qed
qed

lemma submit_loop_no_failure:
  "\<forall>k. failure_of (ext E k) = None \<Longrightarrow>
     \<exists>sub' futs' cur'. submit_loop E bs mw x0 refs cur futs sub = (sub', futs', cur', None)"
  by (induction refs arbitrary: cur futs sub) (simp_all add: Let_def)

lemma run_batches_no_failure:
  assumes "\<forall>k. failure_of (ext E k) = None"
  shows "\<exists>sub. run_batches E bs mw x0 refs = (sub, None)"
proof -
  obtain sub' futs' cur' where
    l: "submit_loop E bs mw x0 refs [] [] [] = (sub', futs', cur', None)"
    using submit_loop_no_failure [OF assms] by blast
  have "\<And>futs. List.map_filter (\<lambda>k. failure_of (ext E (x0 + k))) futs = []"
    using assms by (simp add: map_filter_Nil_iff)
  then show ?thesis by (simp add: run_batches_def l Let_def)
qed

lemma delete_all_documents_ok:
  assumes "\<forall>k. failure_of (ext E k) = None" "0 < mw"
  shows "\<exists>n s'. delete_all_documents E c bs mw s = (Inr n, s')"
proof -
  obtain sub where "run_batches E bs mw (xp s + 1) (map fst (take (bs * 4) (fs s c))) = (sub, None)"
    using run_batches_no_failure [OF assms(1)] by blast
  then show ?thesis using assms by (simp add: delete_all_documents_def Let_def)
qed

text \<open>
  C4 fails on the code. \<open>delete_all_documents\<close> streams its query with
  \<open>limit(page_size)\<close>, where \<open>page_size = batch_size * 4 = 2000\<close>, and never asks for a
  second page: of the 2001 documents of \<open>crowded_sys\<close> it deletes 2000 and returns
  2000, and the document left is still there after \<open>batch_write\<close> has added the new
  one.
\<close>

theorem delete_all_documents_stops_at_one_page:
  "length (fs crowded_sys ''users'') = 2001
   \<and> fst (delete_all_documents zero_env ''users'' 500 10 crowded_sys) = Inr 2000
   \<and> fs (snd (delete_all_documents zero_env ''users'' 500 10 crowded_sys)) ''users''
       = [(2000, old_user)]
   \<and> map snd (fs (snd (batch_write zero_env ''users'' [user_doc cx_user]
         (snd (delete_all_documents zero_env ''users'' 500 10 crowded_sys)))) ''users'')
       = [old_user, user_doc cx_user]"
proof -
  let ?r = "delete_all_documents zero_env ''users'' 500 10 crowded_sys"
  have ok: "\<forall>k. failure_of (ext zero_env k) = None"
    by (simp add: zero_env_def failure_of_def)
  obtain n s' where r: "?r = (Inr n, s')"
    using delete_all_documents_ok [OF ok, of 10 "''users''" 500 crowded_sys] by auto
  have docs: "fs crowded_sys ''users'' = map (\<lambda>i. (i, old_user)) [0..<2001]"
    by (simp add: crowded_sys_def empty_sys_def)
  have len: "length (fs crowded_sys ''users'') = 2001" by (simp add: docs)
  have tk: "map fst (take (500 * 4) (fs crowded_sys ''users'')) = [0..<2000]"
    by (simp add: docs take_map comp_def)
  have up: "[0..<2001] = [0..<2000] @ [2000]"
    using upt_Suc_append [of 0 2000] by simp
  have fl: "filter (\<lambda>(i, d). i \<notin> set [0..<2000]) (fs crowded_sys ''users'')
      = [(2000, old_user)]"
    unfolding docs up by (simp add: filter_map comp_def)
  obtain x where n: "n = length (take (500 * 4) (fs crowded_sys ''users''))"
    and s': "s' = crowded_sys\<lparr>fs := (fs crowded_sys)(''users'' := [(2000, old_user)]), xp := x\<rparr>"
    using delete_all_documents_Inr [OF r] unfolding tk fl by blast
  have n2: "n = 2000" using n by (simp add: docs)
  have w: "map snd (fs (snd (batch_write zero_env ''users'' [user_doc cx_user] s')) ''users'')
      = [old_user, user_doc cx_user]"
    by (simp add: batch_write_def Let_def s' zero_env_def failure_of_def)
  show ?thesis using len r n2 s' w by simp
qed

subsection \<open>A run without seed users\<close>

lemma get_users_empty:
  "user_rows E = [] \<Longrightarrow> get_users E ul s = (Inr rows, s') \<Longrightarrow> rows = []"
  by (auto simp add: get_users_def split: option.splits if_splits)

lemma get_users_state:
  "get_users E ul s = (r, s') \<Longrightarrow> s' = s\<lparr>xp := xp s + 1\<rparr>"
  by (auto simp add: get_users_def split: option.splits)

lemma get_users_Inl:
  "get_users E ul s = (Inl e, s') \<Longrightarrow>
     \<exists>m. e = ExternalServiceError (''BigQuery service failed to fetch user data: '' @ m)"
  by (auto simp add: get_users_def split: option.splits)

lemma create_user_collection_no_rows:
  assumes "user_rows E = []"
  shows "\<exists>m del x.
     create_user_collection E ul s =
       (Inl (ExternalServiceError m),
        s\<lparr>fs := (fs s)(''users'' := filter (\<lambda>(i, d). i \<notin> set del) (fs s ''users'')), xp := x\<rparr>)
     \<and> (m = no_users_message
          \<or> (\<exists>t. m = ''Firestore service failed to delete existing user documents: '' @ t)
          \<or> (\<exists>t. m = ''BigQuery service failed to fetch user data: '' @ t))"
proof -
  obtain r s1 where d: "delete_all_documents E ''users'' 500 10 s = (r, s1)"
    by (meson surj_pair)
  obtain del x where s1: "s1 = s\<lparr>fs := (fs s)(''users'' :=
        filter (\<lambda>(i, d). i \<notin> set del) (fs s ''users'')), xp := x\<rparr>"
    using delete_all_documents_frame [OF d] by blast
  show ?thesis
  proof (cases r)
    case (Inl e)
    then have "create_user_collection E ul s =
        (Inl (ExternalServiceError
                (''Firestore service failed to delete existing user documents: ''
                 @ str_exn e)), s1)"
      by (simp add: create_user_collection_def d)
    then show ?thesis using s1 by blast
  next
    case (Inr n)
    obtain g s2 where g: "get_users E ul s1 = (g, s2)" by (meson surj_pair)
    have s2: "s2 = s\<lparr>fs := (fs s)(''users'' :=
        filter (\<lambda>(i, d). i \<notin> set del) (fs s ''users'')), xp := x + 1\<rparr>"
      using get_users_state [OF g] s1 by simp
    show ?thesis
    proof (cases g)
      case (Inl e)
      then obtain t where "e = ExternalServiceError
          (''BigQuery service failed to fetch user data: '' @ t)"
        using get_users_Inl g by blast
      then have "create_user_collection E ul s =
          (Inl (ExternalServiceError (''BigQuery service failed to fetch user data: '' @ t)), s2)"
        using Inl Inr by (simp add: create_user_collection_def d g)
      then show ?thesis using s2 by blast
    next
      case (Inr rows)
      then have "rows = []" using get_users_empty [OF assms] g by blast
      then have "create_user_collection E ul s = (Inl (ExternalServiceError no_users_message), s2)"
        using Inr \<open>r = Inr n\<close>
        by (simp add: create_user_collection_def d g no_users_message_def)
      then show ?thesis using s2 by blast
    qed
  qed
qed

lemma create_user_collection_no_rows_ok:
  assumes "user_rows E = []" "\<forall>k. failure_of (ext E k) = None"
  shows "\<exists>x. create_user_collection E ul s =
       (Inl (ExternalServiceError no_users_message),
        s\<lparr>fs := (fs s)(''users'' :=
              filter (\<lambda>(i, d). i \<notin> set (map fst (take 2000 (fs s ''users'')))) (fs s ''users'')),
          xp := x\<rparr>)"
proof -
  have "0 < (10::nat)" by simp
  from delete_all_documents_ok [OF assms(2) this, of "''users''" 500 s]
  obtain n s1 where d: "delete_all_documents E ''users'' 500 10 s = (Inr n, s1)"
    by blast
  obtain x where s1: "s1 = s\<lparr>fs := (fs s)(''users'' :=
        filter (\<lambda>(i, d). i \<notin> set (map fst (take 2000 (fs s ''users'')))) (fs s ''users'')),
      xp := x\<rparr>"
    using delete_all_documents_Inr [OF d] by auto
  have g: "get_users E ul s1 = (Inr [], s1\<lparr>xp := xp s1 + 1\<rparr>)"
    using assms by (auto simp add: get_users_def split: option.splits)
  have "create_user_collection E ul s =
      (Inl (ExternalServiceError no_users_message), s1\<lparr>xp := xp s1 + 1\<rparr>)"
    by (simp add: create_user_collection_def d g no_users_message_def)
  then show ?thesis using s1 by auto
qed

lemma create_demo_data_users_fail:
  "create_user_collection E ul s = (Inl e, s1) \<Longrightarrow>
     create_demo_data E ul s =
       (Failure (''Demo data creation failed: '' @ str_exn e) (str_exn e), s1)"
  by (simp add: create_demo_data_def demo_data_body_def)

text \<open>
  C7, as the claim states it, fails: \<open>_create_user_collection\<close> deletes the documents
  of the \<open>users\<close> collection before it fetches the seed users. With no seed user and
  one document in \<open>users\<close>, the run fails with the error of the missing source data and
  the document is gone.
\<close>

theorem users_deleted_before_abort:
  "user_rows zero_env = []
   \<and> fs one_user_sys ''users'' = [(0, old_user)]
   \<and> fst (create_demo_data zero_env None one_user_sys) =
       Failure (''Demo data creation failed: '' @ no_users_message) no_users_message
   \<and> fs (snd (create_demo_data zero_env None one_user_sys)) ''users'' = []"
proof -
  have a: "user_rows zero_env = []" by (simp add: zero_env_def)
  have b: "fs one_user_sys ''users'' = [(0, old_user)]"
    by (simp add: one_user_sys_def empty_sys_def)
  have c: "fst (create_demo_data zero_env None one_user_sys) =
       Failure (''Demo data creation failed: '' @ no_users_message) no_users_message"
    by code_simp
  have d: "fs (snd (create_demo_data zero_env None one_user_sys)) ''users'' = []"
    by code_simp
  show ?thesis using a b c d by simp
qed

text \<open>
  C7, amended. When the source has no seed user, the pipeline fails with a structured
  failure and writes nothing: the final state differs from the initial one only in
  the \<open>users\<close> collection, of which documents have been deleted, and in the count of
  the external calls made. No other collection and no table is touched, and no later
  stage runs. The error is the one of the missing source data unless the deletion
  of the users or the query itself raised; when no external call fails, it is that
  error, and the documents deleted are the first 2000 of the collection.
\<close>

theorem no_seed_users_aborts_before_writes:
  "(user_rows E = []
      \<longrightarrow> (\<exists>m del x.
             create_demo_data E ul s =
               (Failure (''Demo data creation failed: '' @ m) m,
                s\<lparr>fs := (fs s)(''users'' :=
                      filter (\<lambda>(i, d). i \<notin> set del) (fs s ''users'')),
                  xp := x\<rparr>)
             \<and> (m = no_users_message
                  \<or> (\<exists>t. m = ''Firestore service failed to delete existing user documents: ''
                            @ t)
                  \<or> (\<exists>t. m = ''BigQuery service failed to fetch user data: '' @ t))))
   \<and> (user_rows E = [] \<and> (\<forall>k. failure_of (ext E k) = None)
      \<longrightarrow> (\<exists>x. create_demo_data E ul s =
               (Failure (''Demo data creation failed: '' @ no_users_message) no_users_message,
                s\<lparr>fs := (fs s)(''users'' :=
                      filter (\<lambda>(i, d). i \<notin> set (map fst (take 2000 (fs s ''users''))))
                        (fs s ''users'')),
                  xp := x\<rparr>)))"
proof (intro conjI impI)
  assume a: "user_rows E = []"
  obtain m del x where c: "create_user_collection E ul s =
       (Inl (ExternalServiceError m),
        s\<lparr>fs := (fs s)(''users'' := filter (\<lambda>(i, d). i \<notin> set del) (fs s ''users'')), xp := x\<rparr>)"
    and m: "m = no_users_message
          \<or> (\<exists>t. m = ''Firestore service failed to delete existing user documents: '' @ t)
          \<or> (\<exists>t. m = ''BigQuery service failed to fetch user data: '' @ t)"
    using create_user_collection_no_rows [OF a] by blast
  have "create_demo_data E ul s =
      (Failure (''Demo data creation failed: '' @ m) m,
       s\<lparr>fs := (fs s)(''users'' := filter (\<lambda>(i, d). i \<notin> set del) (fs s ''users'')), xp := x\<rparr>)"
    using create_demo_data_users_fail [OF c] by (simp add: str_exn_def)
  then show "\<exists>m del x.
             create_demo_data E ul s =
               (Failure (''Demo data creation failed: '' @ m) m,
                s\<lparr>fs := (fs s)(''users'' :=
                      filter (\<lambda>(i, d). i \<notin> set del) (fs s ''users'')),
                  xp := x\<rparr>)
             \<and> (m = no_users_message
                  \<or> (\<exists>t. m = ''Firestore service failed to delete existing user documents: ''
                            @ t)
                  \<or> (\<exists>t. m = ''BigQuery service failed to fetch user data: '' @ t))"
    using m by blast
next
  assume a: "user_rows E = [] \<and> (\<forall>k. failure_of (ext E k) = None)"
  obtain x where c: "create_user_collection E ul s =
       (Inl (ExternalServiceError no_users_message),
        s\<lparr>fs := (fs s)(''users'' :=
              filter (\<lambda>(i, d). i \<notin> set (map fst (take 2000 (fs s ''users'')))) (fs s ''users'')),
          xp := x\<rparr>)"
    using create_user_collection_no_rows_ok [of E ul s] a by blast
  have "create_demo_data E ul s =
      (Failure (''Demo data creation failed: '' @ no_users_message) no_users_message,
       s\<lparr>fs := (fs s)(''users'' :=
              filter (\<lambda>(i, d). i \<notin> set (map fst (take 2000 (fs s ''users'')))) (fs s ''users'')),
          xp := x\<rparr>)"
    using create_demo_data_users_fail [OF c] by (simp add: str_exn_def)
  then show "\<exists>x. create_demo_data E ul s =
               (Failure (''Demo data creation failed: '' @ no_users_message) no_users_message,
                s\<lparr>fs := (fs s)(''users'' :=
                      filter (\<lambda>(i, d). i \<notin> set (map fst (take 2000 (fs s ''users''))))
                        (fs s ''users'')),
                  xp := x\<rparr>)"
    by blast
qed

theorem no_seed_users_aborts_before_writes_witness:
  "\<exists>x. create_demo_data zero_env None one_user_sys =
     (Failure (''Demo data creation failed: '' @ no_users_message) no_users_message,
      one_user_sys\<lparr>fs := (fs one_user_sys)(''users'' := []), xp := x\<rparr>)"
proof -
  have a: "user_rows zero_env = [] \<and> (\<forall>k. failure_of (ext zero_env k) = None)"
    by (simp add: zero_env_def failure_of_def)
  have f: "filter (\<lambda>(i, d). i \<notin> set (map fst (take 2000 (fs one_user_sys ''users''))))
      (fs one_user_sys ''users'') = []"
    by (simp add: one_user_sys_def empty_sys_def)
  show ?thesis
    using no_seed_users_aborts_before_writes [of zero_env None one_user_sys] a
    unfolding f by blast
qed

end
